theory Spec2Isabelle
  imports Main
begin

section \<open>Exceptions\<close>

text \<open>
  Every exception that the program or one of its libraries raises is a value. The program
  itself raises only \<open>ValueError\<close> (in \<open>get_price_from_url\<close>); the others come from
  requests (transport failures, \<open>raise_for_status\<close>), from the selector engine behind
  \<open>select_one\<close>, and from pandas and the operating system when the dataset file is read
  or written.
\<close>

datatype exn =
    ValueError string
  | RequestException string
  | HTTPError nat
  | SelectorSyntaxError
  | FileNotFoundError
  | PermissionError
  | EmptyDataError
  | ParserError
  | OSError string

section \<open>Documents and text extraction\<close>

text \<open>
  A parsed document is the list of its elements in document order. An element carries its
  tag name, its \<open>id\<close> attribute if it has one, the tokens of its \<open>class\<close> attribute, and
  \<open>strings\<close>: the text nodes below it, in document order. A character of a string is a
  code point below 256.
\<close>

record element =
  tag :: string
  ident :: "string option"
  classes :: "string list"
  strings :: "string list"

type_synonym document = "element list"

definition is_space :: "char \<Rightarrow> bool" where
  \<comment> \<open>\<open>str.isspace()\<close> on one character: tab to carriage return, the separators 0x1C to
      0x1F, the space, NEL (0x85) and the no-break space (0xA0)\<close>
  "is_space c =
     (c \<in> set [CHR 0x09, CHR 0x0A, CHR 0x0B, CHR 0x0C, CHR 0x0D,
                CHR 0x1C, CHR 0x1D, CHR 0x1E, CHR 0x1F, CHR 0x20, CHR 0x85, CHR 0xA0])"

definition strip :: "string \<Rightarrow> string" where
  \<comment> \<open>Python's \<open>str.strip()\<close>\<close>
  "strip s = rev (dropWhile is_space (rev (dropWhile is_space s)))"

definition get_text :: "element \<Rightarrow> string" where
  \<comment> \<open>\<open>tag.get_text()\<close>: the text nodes joined as they are\<close>
  "get_text e = concat (strings e)"

definition get_text_strip :: "element \<Rightarrow> string" where
  \<comment> \<open>\<open>tag.get_text(strip=True)\<close>: every text node is stripped, the empty ones are dropped,
      the rest is joined with the empty separator\<close>
  "get_text_strip e = concat (filter (\<lambda>s. s \<noteq> []) (map strip (strings e)))"

subsection \<open>The selectors the program itself uses\<close>

text \<open>
  \<open>select_one\<close> is a library call, and the program hands it any string the user typed. The
  functions of the program below therefore take the selector engine as a parameter, and
  what they do is stated for every engine.

  For the examples an engine is needed. \<open>simple_select_one\<close> is the library's engine on
  the selectors of four forms, those of the default list of the source: \<open>.name\<close> selects by
  class token, \<open>#name\<close> by id, \<open>[class*="v"]\<close> and \<open>[id*="v"]\<close> by a substring of the
  attribute value (the class tokens joined by one space). A name is a CSS identifier
  without escapes: it cannot begin with a digit, nor with a hyphen and a digit. A string
  of no such form is answered with \<open>SelectorSyntaxError\<close>: that is the library's answer
  when the string is no selector at all, as the empty string and \<open>.2x\<close>; for the selectors
  of other forms (a tag name, a combination) it is not the library's answer, and nothing
  below applies \<open>simple_select_one\<close> to one.
\<close>

datatype simple_selector = ByClass string | ById string | ClassContains string | IdContains string

definition ident_start :: "char \<Rightarrow> bool" where
  "ident_start c =
     (c \<in> set ''abcdefghijklmnopqrstuvwxyzABCDEFGHIJKLMNOPQRSTUVWXYZ_''
      \<or> (160::nat) \<le> of_char c)"

definition ident_char :: "char \<Rightarrow> bool" where
  "ident_char c = (ident_start c \<or> c \<in> set ''0123456789-'')"

fun is_ident :: "string \<Rightarrow> bool" where
  "is_ident [] = False"
| "is_ident [c] = ident_start c"
| "is_ident (c # d # ds) =
     (if c = CHR ''-'' then (ident_start d \<or> d = CHR ''-'') \<and> list_all ident_char ds
      else ident_start c \<and> list_all ident_char (d # ds))"

definition attr_selector :: "string \<Rightarrow> string \<Rightarrow> string option" where
  \<comment> \<open>the \<open>v\<close> of \<open>[attr*="v"]\<close>, when the string has that shape; \<open>v\<close> is a quoted string
      without a quote, a backslash or a line break in it\<close>
  "attr_selector attr s =
     (let pre = CHR ''['' # attr @ [CHR ''*'', CHR ''='', CHR 0x22];
          n = length s;
          v = take (n - 2 - length pre) (drop (length pre) s)
      in if take (length pre) s = pre \<and> length pre + 2 \<le> n
            \<and> drop (n - 2) s = [CHR 0x22, CHR '']'']
            \<and> list_all (\<lambda>c. c \<notin> set [CHR 0x22, CHR 0x5C, CHR 0x0A, CHR 0x0C, CHR 0x0D]) v
         then Some v
         else None)"

definition parse_selector :: "string \<Rightarrow> simple_selector option" where
  "parse_selector s =
     (case s of
        [] \<Rightarrow> None
      | c # name \<Rightarrow>
          if c = CHR ''.'' \<and> is_ident name then Some (ByClass name)
          else if c = CHR ''#'' \<and> is_ident name then Some (ById name)
          else (case attr_selector ''class'' s of
                  Some v \<Rightarrow> Some (ClassContains v)
                | None \<Rightarrow> map_option IdContains (attr_selector ''id'' s)))"

fun contains :: "string \<Rightarrow> string \<Rightarrow> bool" where
  "contains v [] = (v = [])"
| "contains v (c # cs) = (take (length v) (c # cs) = v \<or> contains v cs)"

fun join_space :: "string list \<Rightarrow> string" where
  "join_space [] = []"
| "join_space [t] = t"
| "join_space (t # ts) = t @ CHR '' '' # join_space ts"

fun matches :: "simple_selector \<Rightarrow> element \<Rightarrow> bool" where
  "matches (ByClass c) e = (c \<in> set (classes e))"
| "matches (ById i) e = (ident e = Some i)"
| "matches (ClassContains v) e = (classes e \<noteq> [] \<and> contains v (join_space (classes e)))"
| "matches (IdContains v) e = (case ident e of None \<Rightarrow> False | Some i \<Rightarrow> contains v i)"

definition simple_select_one :: "string \<Rightarrow> document \<Rightarrow> exn + element option" where
  "simple_select_one sel doc =
     (case parse_selector sel of
        None \<Rightarrow> Inl SelectorSyntaxError
      | Some m \<Rightarrow> Inr (find (matches m) doc))"

section \<open>The environment of the cycle\<close>

text \<open>
  The cycle runs on its own thread, while the foreground calls \<open>start()\<close> and \<open>stop()\<close>.
  The only thing the cycle ever learns of the foreground is the value of \<open>self.running\<close>
  at the moments it reads it, so the interleaving is modelled at those reads: \<open>foreground
  env k\<close> lists the calls the foreground has made since the cycle's previous read, when the
  cycle reads the flag for the \<open>k\<close>-th time. The web and the wall clock may change between
  two reads as well, and are indexed the same way.

  The libraries are part of the environment too: the HTML parser, the selector engine, and
  \<open>read_cell\<close>, what \<open>pd.read_csv\<close> makes of a cell that \<open>to_csv\<close> wrote (with the
  default arguments, as the program calls it, pandas infers types and takes some strings
  for a missing value).
\<close>

datatype action = Start | Stop

text \<open>
  A cell of the dataset table: a string, a timestamp, or pandas' missing value.
\<close>

datatype cell = NaN | Str string | Time nat

record response =
  status_code :: nat
  resp_text :: string

record env =
  foreground :: "nat \<Rightarrow> action list"
  requests_get :: "nat \<Rightarrow> string \<Rightarrow> exn + response"
  html_parser :: "string \<Rightarrow> document"
  select_one :: "string \<Rightarrow> document \<Rightarrow> exn + element option"
  read_cell :: "cell \<Rightarrow> cell"
  now :: "nat \<Rightarrow> nat"

section \<open>PriceScraperBot\<close>

record observation =
  url :: string
  price :: string
  timestamp :: nat

text \<open>
  The lines handed to \<open>log_callback\<close>, one constructor for each message of the source.
\<close>

datatype log_line =
    BotStarted
  | StoppingBot
  | Scraping string
  | PriceFound string
  | ErrorScraping string exn
  | DataSaved string
  | StartingRound
  | NoDataScraped
  | SleepingFor int
  | BotStopped

text \<open>
  The fields of the object, and four that are not in the source: \<open>threads\<close> counts the
  threads that \<open>start()\<close> has created, \<open>logs\<close> collects what \<open>log_callback\<close> has received,
  \<open>reads\<close> counts the cycle's reads of \<open>self.running\<close>, and \<open>slept\<close> adds up the seconds
  spent in \<open>time.sleep\<close>.
\<close>

record bot =
  sites :: "(string \<times> string option) list"
  interval :: int
  running :: bool
  data :: "observation list"
  threads :: nat
  logs :: "log_line list"
  reads :: nat
  slept :: nat

definition init_bot :: bot where
  "init_bot = \<lparr>sites = [], interval = 60, running = False, data = [], threads = 0,
     logs = [], reads = 0, slept = 0\<rparr>"

definition log :: "log_line \<Rightarrow> bot \<Rightarrow> bot" where
  \<comment> \<open>\<open>self.log(message)\<close>, with a \<open>log_callback\<close> that takes the line and returns\<close>
  "log m st = st\<lparr>logs := logs st @ [m]\<rparr>"

definition set_sites :: "(string \<times> string option) list \<Rightarrow> bot \<Rightarrow> bot" where
  "set_sites s st = st\<lparr>sites := s\<rparr>"

definition set_interval :: "int \<Rightarrow> bot \<Rightarrow> bot" where
  "set_interval minutes st = st\<lparr>interval := minutes\<rparr>"

definition start :: "bot \<Rightarrow> bot" where
  "start st =
     (if \<not> running st
      then log BotStarted (st\<lparr>running := True, threads := threads st + 1\<rparr>)
      else st)"

definition stop :: "bot \<Rightarrow> bot" where
  "stop st = (if running st then log StoppingBot (st\<lparr>running := False\<rparr>) else st)"

fun act :: "action \<Rightarrow> bot \<Rightarrow> bot" where
  "act Start = start"
| "act Stop = stop"

definition poll :: "env \<Rightarrow> bot \<Rightarrow> bot" where
  \<comment> \<open>one read of \<open>self.running\<close> by the cycle: the foreground's calls since the previous
      read have taken effect; the flag read is \<open>running\<close> of the result\<close>
  "poll env st = (fold act (foreground env (reads st)) st)\<lparr>reads := reads st + 1\<rparr>"

subsection \<open>get_price_from_url\<close>

definition common_selectors :: "string list" where
  "common_selectors =
     [''.price'', ''#price'',
      ''[class*='' @ [CHR 0x22] @ ''price'' @ [CHR 0x22] @ '']'',
      ''[id*='' @ [CHR 0x22] @ ''price'' @ [CHR 0x22] @ '']'']"

definition not_found_with :: "string \<Rightarrow> string" where
  "not_found_with selector = ''Price element not found with selector '' @ [CHR 0x27] @ selector @ [CHR 0x27]"

definition not_found_default :: string where
  "not_found_default = ''Price element not found with default selectors''"

fun try_selectors :: "env \<Rightarrow> document \<Rightarrow> string list \<Rightarrow> exn + string" where
  "try_selectors env soup [] = Inl (ValueError not_found_default)"
| "try_selectors env soup (sel # sels) =
     (case select_one env sel soup of
        Inl e \<Rightarrow> Inl e
      | Inr (Some price_tag) \<Rightarrow> Inr (get_text_strip price_tag)
      | Inr None \<Rightarrow> try_selectors env soup sels)"

text \<open>
  Lines 49 to 61. \<open>if selector:\<close> is Python truthiness: \<open>None\<close> and the empty string both
  take the \<open>else\<close> branch.
\<close>

fun extract_price :: "env \<Rightarrow> document \<Rightarrow> string option \<Rightarrow> exn + string" where
  "extract_price env soup (Some (c # cs)) =
     (case select_one env (c # cs) soup of
        Inl e \<Rightarrow> Inl e
      | Inr (Some price_tag) \<Rightarrow> Inr (get_text_strip price_tag)
      | Inr None \<Rightarrow> Inl (ValueError (not_found_with (c # cs))))"
| "extract_price env soup (Some []) = try_selectors env soup common_selectors"
| "extract_price env soup None = try_selectors env soup common_selectors"

definition raise_for_status :: "response \<Rightarrow> exn option" where
  "raise_for_status r =
     (if 400 \<le> status_code r \<and> status_code r < 600 then Some (HTTPError (status_code r))
      else None)"

definition get_price_from_url :: "env \<Rightarrow> nat \<Rightarrow> string \<Rightarrow> string option \<Rightarrow> exn + string" where
  "get_price_from_url env k u selector =
     (case requests_get env k u of
        Inl e \<Rightarrow> Inl e
      | Inr r \<Rightarrow>
          (case raise_for_status r of
             Some e \<Rightarrow> Inl e
           | None \<Rightarrow> extract_price env (html_parser env (resp_text r)) selector))"

subsection \<open>scrape_all_sites\<close>

text \<open>
  The \<open>for\<close> loop of lines 65 to 74. \<open>except Exception\<close> takes every failure of
  \<open>get_price_from_url\<close>, so the loop has a next state in either case and the function
  returns a state, never an exception.
\<close>

fun scrape_loop :: "env \<Rightarrow> (string \<times> string option) list \<Rightarrow> bot \<Rightarrow> bot" where
  "scrape_loop env [] st = st"
| "scrape_loop env ((u, selector) # rest) st =
     (let st1 = poll env st in
      if \<not> running st1 then st1
      else
        let st2 = log (Scraping u) st1 in
        (case get_price_from_url env (reads st1) u selector of
           Inr p \<Rightarrow>
             scrape_loop env rest
               ((log (PriceFound p) st2)
                  \<lparr>data := data st2 @ [\<lparr>url = u, price = p, timestamp = now env (reads st1)\<rparr>]\<rparr>)
         | Inl e \<Rightarrow> scrape_loop env rest (log (ErrorScraping u e) st2)))"

definition scrape_all_sites :: "env \<Rightarrow> bot \<Rightarrow> bot" where
  "scrape_all_sites env st = scrape_loop env (sites st) (st\<lparr>data := []\<rparr>)"

section \<open>The dataset file\<close>

text \<open>
  A data frame is its column names and its rows, each row aligned with the columns. The
  CSV text itself is not modelled: a file that pandas can parse is the table that \<open>to_csv\<close>
  wrote, and \<open>read_csv\<close> gives that table with every cell as \<open>read_cell\<close> reads it.
\<close>

record dataframe =
  columns :: "string list"
  rows :: "cell list list"

definition schema :: "string list" where
  "schema = [''url'', ''price'', ''timestamp'']"

definition row_of :: "observation \<Rightarrow> cell list" where
  "row_of ob = [Str (url ob), Str (price ob), Time (timestamp ob)]"

definition DataFrame :: "observation list \<Rightarrow> dataframe" where
  \<comment> \<open>\<open>pd.DataFrame(self.data)\<close> on a list of dicts with the keys url, price, timestamp;
      the empty list gives the frame with no columns\<close>
  "DataFrame obs = \<lparr>columns = (if obs = [] then [] else schema), rows = map row_of obs\<rparr>"

definition reindex :: "string list \<Rightarrow> string list \<Rightarrow> cell list \<Rightarrow> cell list" where
  "reindex old new r =
     map (\<lambda>c. case map_of (zip old r) c of Some v \<Rightarrow> v | None \<Rightarrow> NaN) new"

definition pd_concat :: "dataframe \<Rightarrow> dataframe \<Rightarrow> dataframe" where
  \<comment> \<open>\<open>pd.concat([a, b], ignore_index=True)\<close>: the columns of \<open>a\<close>, then those of \<open>b\<close> that
      \<open>a\<close> lacks; the rows of \<open>a\<close>, then those of \<open>b\<close>, a missing cell filled with NaN\<close>
  "pd_concat a b =
     (let cs = columns a @ filter (\<lambda>c. c \<notin> set (columns a)) (columns b)
      in \<lparr>columns = cs,
          rows = map (reindex (columns a) cs) (rows a) @ map (reindex (columns b) cs) (rows b)\<rparr>)"

text \<open>
  What is at a path: nothing, a file of zero bytes, a file that holds one line break (what
  \<open>to_csv\<close> writes for a frame without columns), a file that parses to a table, or a file
  whose reading raises (no permission, malformed content).

  \<open>to_csv\<close> opens the path for writing, which empties the file, and then writes. It can
  fail at the opening, and then the file is what it was; or while it writes (a full disk),
  and then the path holds what had been written by then. \<open>write_error\<close> says which, if
  any, and for a failure while writing, what is left at the path.
\<close>

datatype file_content = ZeroBytes | BlankLine | Table dataframe | Unreadable exn

datatype write_failure = OpenFails exn | WriteFails exn file_content

record filesystem =
  files :: "string \<rightharpoonup> file_content"
  write_error :: "string \<Rightarrow> write_failure option"

definition read_csv :: "env \<Rightarrow> filesystem \<Rightarrow> string \<Rightarrow> exn + dataframe" where
  "read_csv env fsys filename =
     (case files fsys filename of
        None \<Rightarrow> Inl FileNotFoundError
      | Some ZeroBytes \<Rightarrow> Inl EmptyDataError
      | Some BlankLine \<Rightarrow> Inl EmptyDataError
      | Some (Unreadable e) \<Rightarrow> Inl e
      | Some (Table df) \<Rightarrow> Inr (df\<lparr>rows := map (map (read_cell env)) (rows df)\<rparr>))"

definition written :: "dataframe \<Rightarrow> file_content" where
  "written df = (if columns df = [] then BlankLine else Table df)"

definition to_csv :: "filesystem \<Rightarrow> string \<Rightarrow> dataframe \<Rightarrow> exn \<times> filesystem + filesystem" where
  \<comment> \<open>a failure comes with the file system it leaves\<close>
  "to_csv fsys filename df =
     (case write_error fsys filename of
        Some (OpenFails e) \<Rightarrow> Inl (e, fsys)
      | Some (WriteFails e left) \<Rightarrow> Inl (e, fsys\<lparr>files := (files fsys)(filename \<mapsto> left)\<rparr>)
      | None \<Rightarrow> Inr (fsys\<lparr>files := (files fsys)(filename \<mapsto> written df)\<rparr>))"

subsection \<open>save_data\<close>

definition write_and_log ::
  "string \<Rightarrow> dataframe \<Rightarrow> bot \<Rightarrow> filesystem \<Rightarrow> exn \<times> filesystem + bot \<times> filesystem" where
  \<comment> \<open>lines 83 and 84\<close>
  "write_and_log filename df st fsys =
     (case to_csv fsys filename df of
        Inl failure \<Rightarrow> Inl failure
      | Inr fsys' \<Rightarrow> Inr (log (DataSaved filename) st, fsys'))"

definition save_data ::
  "env \<Rightarrow> string \<Rightarrow> bot \<Rightarrow> filesystem \<Rightarrow> exn \<times> filesystem + bot \<times> filesystem" where
  "save_data env filename st fsys =
     (let df = DataFrame (data st) in
      case read_csv env fsys filename of
        Inr df_existing \<Rightarrow> write_and_log filename (pd_concat df_existing df) st fsys
      | Inl e \<Rightarrow>
          if e = FileNotFoundError then write_and_log filename df st fsys
          else Inl (e, fsys))"

definition default_filename :: string where
  "default_filename = ''scraped_prices.csv''"

section \<open>run_bot\<close>

definition save_if_data ::
  "env \<Rightarrow> bot \<Rightarrow> filesystem \<Rightarrow> exn \<times> filesystem + bot \<times> filesystem" where
  \<comment> \<open>lines 90 to 93\<close>
  "save_if_data env st fsys =
     (if data st \<noteq> [] then save_data env default_filename st fsys
      else Inr (log NoDataScraped st, fsys))"

fun sleep_loop :: "env \<Rightarrow> nat \<Rightarrow> bot \<Rightarrow> bot" where
  \<comment> \<open>lines 95 to 98, for the iterations of \<open>range\<close> still to come\<close>
  "sleep_loop env 0 st = st"
| "sleep_loop env (Suc n) st =
     (let st1 = poll env st in
      if \<not> running st1 then st1
      else sleep_loop env n (st1\<lparr>slept := slept st1 + 10\<rparr>))"

text \<open>
  The \<open>while\<close> loop may run for ever, so it takes fuel: one unit for each round begun.
  \<open>Finished\<close> is the normal end (the flag was read as false), \<open>Raised\<close> an exception that
  leaves \<open>run_bot\<close> and ends the thread. Each comes with the state of the bot and the
  file system at that moment.
\<close>

datatype outcome =
    Finished bot filesystem
  | Raised exn bot filesystem
  | OutOfFuel bot filesystem

fun run_bot :: "nat \<Rightarrow> env \<Rightarrow> bot \<Rightarrow> filesystem \<Rightarrow> outcome" where
  "run_bot 0 env st fsys = OutOfFuel st fsys"
| "run_bot (Suc fuel) env st fsys =
     (let st1 = poll env st in
      if \<not> running st1 then Finished (log BotStopped st1) fsys
      else
        let st2 = scrape_all_sites env (log StartingRound st1) in
        (case save_if_data env st2 fsys of
           Inl (e, fsys2) \<Rightarrow> Raised e st2 fsys2
         | Inr (st3, fsys3) \<Rightarrow>
             let st4 = log (SleepingFor (interval st3)) st3 in
             run_bot fuel env (sleep_loop env (nat (interval st4 * 6)) st4) fsys3))"

section \<open>Reference functions for the statements\<close>

text \<open>
  What one pass over the targets is expected to collect and to log when nobody stops the
  bot meanwhile: target \<open>i\<close> is fetched after the cycle's read number \<open>k + i + 1\<close>, a
  target that fails gives no observation and one error line, and the pass goes on.
\<close>

fun round_result :: "env \<Rightarrow> nat \<Rightarrow> (string \<times> string option) list \<Rightarrow> observation list" where
  "round_result env k [] = []"
| "round_result env k ((u, selector) # rest) =
     (case get_price_from_url env (Suc k) u selector of
        Inr p \<Rightarrow> [\<lparr>url = u, price = p, timestamp = now env (Suc k)\<rparr>]
      | Inl e \<Rightarrow> [])
     @ round_result env (Suc k) rest"

fun round_log :: "env \<Rightarrow> nat \<Rightarrow> (string \<times> string option) list \<Rightarrow> log_line list" where
  "round_log env k [] = []"
| "round_log env k ((u, selector) # rest) =
     Scraping u
     # (case get_price_from_url env (Suc k) u selector of
          Inr p \<Rightarrow> PriceFound p
        | Inl e \<Rightarrow> ErrorScraping u e)
     # round_log env (Suc k) rest"


text \<open>
  \<open>holds_dataset fsys f old\<close>: the dataset at path \<open>f\<close> has the rows \<open>old\<close>, that is, the
  file is absent and \<open>old\<close> is empty, or the file is a table with the columns url, price,
  timestamp, whose rows are \<open>old\<close>.
\<close>

definition holds_dataset :: "filesystem \<Rightarrow> string \<Rightarrow> cell list list \<Rightarrow> bool" where
  "holds_dataset fsys f old =
     (case files fsys f of
        None \<Rightarrow> old = []
      | Some ZeroBytes \<Rightarrow> False
      | Some BlankLine \<Rightarrow> False
      | Some (Table df) \<Rightarrow>
          columns df = schema \<and> rows df = old \<and> list_all (\<lambda>r. length r = length schema) old
      | Some (Unreadable e) \<Rightarrow> False)"

definition with_table :: "filesystem \<Rightarrow> string \<Rightarrow> cell list list \<Rightarrow> filesystem" where
  "with_table fsys f rs = fsys\<lparr>files := (files fsys)(f \<mapsto> Table \<lparr>columns = schema, rows = rs\<rparr>)\<rparr>"

text \<open>
  \<open>reads_back env rs\<close>: \<open>read_csv\<close> gives every cell of the rows \<open>rs\<close> as it was written.
  \<open>save_twice\<close> saves one round and then another; \<open>saved_table\<close> is the table at a path
  after a save that succeeded.
\<close>

definition reads_back :: "env \<Rightarrow> cell list list \<Rightarrow> bool" where
  "reads_back env rs = (map (map (read_cell env)) rs = rs)"

definition save_twice ::
  "env \<Rightarrow> string \<Rightarrow> observation list \<Rightarrow> observation list \<Rightarrow> bot \<Rightarrow> filesystem
    \<Rightarrow> exn \<times> filesystem + bot \<times> filesystem" where
  "save_twice env f r1 r2 st fsys =
     (case save_data env f (st\<lparr>data := r1\<rparr>) fsys of
        Inl failure \<Rightarrow> Inl failure
      | Inr (st1, fs1) \<Rightarrow> save_data env f (st1\<lparr>data := r2\<rparr>) fs1)"

definition table_at :: "filesystem \<Rightarrow> string \<Rightarrow> dataframe option" where
  "table_at fsys f =
     (case files fsys f of
        None \<Rightarrow> None
      | Some ZeroBytes \<Rightarrow> None
      | Some BlankLine \<Rightarrow> None
      | Some (Table df) \<Rightarrow> Some df
      | Some (Unreadable e) \<Rightarrow> None)"

definition saved_table ::
  "exn \<times> filesystem + bot \<times> filesystem \<Rightarrow> string \<Rightarrow> dataframe option" where
  "saved_table r f = (case r of Inl failure \<Rightarrow> None | Inr (st, fsys) \<Rightarrow> table_at fsys f)"


fun cycle_rows :: "env \<Rightarrow> nat \<Rightarrow> (string \<times> string option) list \<Rightarrow> int \<Rightarrow> nat \<Rightarrow> observation list" where
  "cycle_rows env k ts iv 0 = []"
| "cycle_rows env k ts iv (Suc n) =
     round_result env (Suc k) ts @ cycle_rows env (Suc k + length ts + nat (iv * 6)) ts iv n"

fun final_bot :: "outcome \<Rightarrow> bot" where
  "final_bot (Finished st fsys) = st"
| "final_bot (Raised e st fsys) = st"
| "final_bot (OutOfFuel st fsys) = st"

fun final_files :: "outcome \<Rightarrow> filesystem" where
  "final_files (Finished st fsys) = fsys"
| "final_files (Raised e st fsys) = fsys"
| "final_files (OutOfFuel st fsys) = fsys"

fun finished :: "outcome \<Rightarrow> bool" where
  "finished (Finished st fsys) = True"
| "finished _ = False"

fun raised :: "outcome \<Rightarrow> exn option" where
  "raised (Raised e st fsys) = Some e"
| "raised _ = None"

fun out_of_fuel :: "outcome \<Rightarrow> bool" where
  "out_of_fuel (OutOfFuel st fsys) = True"
| "out_of_fuel _ = False"


section \<open>Example inputs\<close>

text \<open>
  For the examples, \<open>read_cell\<close> is what pandas does to a string with its default
  \<open>na_values\<close>: these strings are read as a missing value. (That pandas reads a column of
  numerals as numbers is left out of the examples.)
\<close>

definition na_values :: "string list" where
  "na_values =
     [[], ''#N/A'', ''#N/A N/A'', ''#NA'', ''-1.#IND'', ''-1.#QNAN'', ''-NaN'', ''-nan'',
      ''1.#IND'', ''1.#QNAN'', ''<NA>'', ''N/A'', ''NA'', ''NULL'', ''NaN'', ''None'', ''n/a'',
      ''nan'', ''null'']"

fun na_read_cell :: "cell \<Rightarrow> cell" where
  "na_read_cell (Str s) = (if s \<in> set na_values then NaN else Str s)"
| "na_read_cell c = c"

definition quiet_env :: "(string \<Rightarrow> exn + response) \<Rightarrow> (string \<Rightarrow> document) \<Rightarrow> env" where
  \<comment> \<open>no call from the foreground, a web that does not change, a clock that ticks at every read\<close>
  "quiet_env web parse =
     \<lparr>foreground = (\<lambda>_. []), requests_get = (\<lambda>_. web), html_parser = parse,
      select_one = simple_select_one, read_cell = na_read_cell, now = (\<lambda>k. k)\<rparr>"

definition stopping_env :: "nat \<Rightarrow> (string \<Rightarrow> exn + response) \<Rightarrow> (string \<Rightarrow> document) \<Rightarrow> env" where
  \<comment> \<open>as \<open>quiet_env\<close>, with one \<open>stop()\<close> that the cycle's read number \<open>i\<close> is the first to see\<close>
  "stopping_env i web parse =
     (quiet_env web parse)\<lparr>foreground := (\<lambda>k. if k = i then [Stop] else [])\<rparr>"

definition restarting_env :: "nat \<Rightarrow> (string \<Rightarrow> exn + response) \<Rightarrow> (string \<Rightarrow> document) \<Rightarrow> env" where
  \<comment> \<open>as \<open>quiet_env\<close>, with a \<open>stop()\<close> and then a \<open>start()\<close> between the cycle's reads number
      \<open>i - 1\<close> and \<open>i\<close>\<close>
  "restarting_env i web parse =
     (quiet_env web parse)\<lparr>foreground := (\<lambda>k. if k = i then [Stop, Start] else [])\<rparr>"

definition no_web :: "string \<Rightarrow> exn + response" where
  "no_web u = Inl (RequestException ''unreachable'')"

definition offline_env :: env where
  "offline_env = quiet_env no_web (\<lambda>_. [])"

definition span_price :: element where
  \<comment> \<open>\<open><span class="price"> $12.99 </span>\<close>\<close>
  "span_price = \<lparr>tag = ''span'', ident = None, classes = [''price''], strings = ['' $12.99 '']\<rparr>"

definition div_price :: element where
  \<comment> \<open>\<open><div id="price">19.99</div>\<close>\<close>
  "div_price = \<lparr>tag = ''div'', ident = Some ''price'', classes = [], strings = [''19.99'']\<rparr>"

definition div_nested :: element where
  \<comment> \<open>the \<open>div\<close> of \<open><div id="price">19 <sup>99</sup></div>\<close>\<close>
  "div_nested = \<lparr>tag = ''div'', ident = Some ''price'', classes = [], strings = [''19 '', ''99'']\<rparr>"

definition sup_nested :: element where
  "sup_nested = \<lparr>tag = ''sup'', ident = None, classes = [], strings = [''99'']\<rparr>"

definition span_nested :: element where
  \<comment> \<open>the \<open>span\<close> of \<open><span class="price">$ <b>12</b></span>\<close>\<close>
  "span_nested = \<lparr>tag = ''span'', ident = None, classes = [''price''], strings = [''$ '', ''12'']\<rparr>"

definition b_nested :: element where
  "b_nested = \<lparr>tag = ''b'', ident = None, classes = [], strings = [''12'']\<rparr>"

definition shop_web :: "string \<Rightarrow> exn + response" where
  "shop_web u =
     (if u = ''http://shop/a'' then Inr \<lparr>status_code = 200, resp_text = ''price page''\<rparr>
      else if u = ''http://shop/gone'' then Inr \<lparr>status_code = 404, resp_text = []\<rparr>
      else if u = ''http://shop/plain'' then Inr \<lparr>status_code = 200, resp_text = ''plain page''\<rparr>
      else Inl (RequestException ''connection refused''))"

definition shop_parser :: "string \<Rightarrow> document" where
  "shop_parser t =
     (if t = ''price page'' then [span_price]
      else if t = ''plain page''
        then [\<lparr>tag = ''p'', ident = None, classes = [], strings = [''hello'']\<rparr>]
      else [])"

definition shop_env :: env where
  "shop_env = quiet_env shop_web shop_parser"

definition shop_sites :: "(string \<times> string option) list" where
  "shop_sites =
     [(''http://shop/gone'', None), (''http://shop/a'', Some ''.price''),
      (''http://shop/down'', None), (''http://shop/plain'', None), (''http://shop/a'', None)]"

definition shop_bot :: bot where
  "shop_bot = start (set_interval 1 (set_sites shop_sites init_bot))"

definition empty_disk :: filesystem where
  "empty_disk = \<lparr>files = Map.empty, write_error = (\<lambda>_. None)\<rparr>"

definition disk_with :: "string \<Rightarrow> file_content \<Rightarrow> filesystem" where
  "disk_with f c = \<lparr>files = [f \<mapsto> c], write_error = (\<lambda>_. None)\<rparr>"

definition old_rows :: "cell list list" where
  "old_rows = [[Str ''http://shop/a'', Str ''$11.99'', Time 0]]"

definition locked_disk :: filesystem where
  \<comment> \<open>no file, and no permission to create one\<close>
  "locked_disk = \<lparr>files = Map.empty, write_error = (\<lambda>_. Some (OpenFails PermissionError))\<rparr>"

definition full_disk :: filesystem where
  \<comment> \<open>a dataset file, and no room to write it again: the write fails and leaves an empty file\<close>
  "full_disk =
     \<lparr>files = [default_filename \<mapsto> Table \<lparr>columns = schema, rows = old_rows\<rparr>],
      write_error = (\<lambda>_. Some (WriteFails (OSError ''No space left on device'') ZeroBytes))\<rparr>"

definition obs_a :: observation where
  "obs_a = \<lparr>url = ''http://shop/a'', price = ''$12.99'', timestamp = 7\<rparr>"

definition obs_na :: observation where
  \<comment> \<open>what a page that shows \<open>N/A\<close> for the price gives\<close>
  "obs_na = \<lparr>url = ''http://shop/c'', price = ''N/A'', timestamp = 3\<rparr>"

definition obs_b :: observation where
  "obs_b = \<lparr>url = ''http://shop/b'', price = ''5'', timestamp = 9\<rparr>"

section \<open>Lemmas about the loops\<close>

lemma poll_quiet:
  "foreground env (reads st) = [] \<Longrightarrow> poll env st = st\<lparr>reads := Suc (reads st)\<rparr>"
  by (simp add: poll_def)

lemma scrape_loop_quiet:
  "running st \<Longrightarrow> \<forall>j<length ts. foreground env (reads st + j) = [] \<Longrightarrow>
   scrape_loop env ts st =
     st\<lparr>reads := reads st + length ts,
        data := data st @ round_result env (reads st) ts,
        logs := logs st @ round_log env (reads st) ts\<rparr>"
proof (induction ts arbitrary: st)
  case Nil
  then show ?case by simp
next
  case (Cons t ts)
  obtain u selector where t: "t = (u, selector)" by (cases t)
  from Cons.prems(2) have q0: "foreground env (reads st) = []" by auto
  define st1 where "st1 = st\<lparr>reads := Suc (reads st)\<rparr>"
  have p: "poll env st = st1" using q0 by (simp add: poll_quiet st1_def)
  have r1: "running st1" using Cons.prems(1) by (simp add: st1_def)
  have q: "\<forall>j<length ts. foreground env (Suc (reads st) + j) = []"
  proof (intro allI impI)
    fix j assume "j < length ts"
    then have "Suc j < length (t # ts)" by simp
    with Cons.prems(2) have "foreground env (reads st + Suc j) = []" by blast
    then show "foreground env (Suc (reads st) + j) = []" by simp
  qed
  show ?case
  proof (cases "get_price_from_url env (Suc (reads st)) u selector")
    case (Inl e)
    define st3 where "st3 = log (ErrorScraping u e) (log (Scraping u) st1)"
    have "running st3" "reads st3 = Suc (reads st)" using r1 by (simp_all add: st3_def log_def st1_def)
    with q have ih: "scrape_loop env ts st3 =
      st3\<lparr>reads := reads st3 + length ts,
        data := data st3 @ round_result env (reads st3) ts,
        logs := logs st3 @ round_log env (reads st3) ts\<rparr>"
      using Cons.IH[of st3] by simp
    have "scrape_loop env (t # ts) st = scrape_loop env ts st3"
      using Inl r1 by (simp add: t p st3_def st1_def)
    then show ?thesis using ih Inl by (simp add: t st3_def log_def st1_def)
  next
    case (Inr pr)
    define st3 where "st3 = (log (PriceFound pr) (log (Scraping u) st1))
      \<lparr>data := data st1 @ [\<lparr>url = u, price = pr, timestamp = now env (Suc (reads st))\<rparr>]\<rparr>"
    have "running st3" "reads st3 = Suc (reads st)" using r1 by (simp_all add: st3_def log_def st1_def)
    with q have ih: "scrape_loop env ts st3 =
      st3\<lparr>reads := reads st3 + length ts,
        data := data st3 @ round_result env (reads st3) ts,
        logs := logs st3 @ round_log env (reads st3) ts\<rparr>"
      using Cons.IH[of st3] by simp
    have "scrape_loop env (t # ts) st = scrape_loop env ts st3"
      using Inr r1 by (simp add: t p st3_def st1_def log_def)
    then show ?thesis using ih Inr by (simp add: t st3_def log_def st1_def)
  qed
qed

lemma sleep_loop_quiet:
  "running st \<Longrightarrow> \<forall>j<n. foreground env (reads st + j) = [] \<Longrightarrow>
   sleep_loop env n st = st\<lparr>reads := reads st + n, slept := slept st + 10 * n\<rparr>"
proof (induction n arbitrary: st)
  case 0
  then show ?case by simp
next
  case (Suc n)
  from Suc.prems(2) have q0: "foreground env (reads st) = []" by auto
  define st1 where "st1 = st\<lparr>reads := Suc (reads st), slept := slept st + 10\<rparr>"
  have q: "\<forall>j<n. foreground env (reads st1 + j) = []"
  proof (intro allI impI)
    fix j assume "j < n"
    then have "Suc j < Suc n" by simp
    with Suc.prems(2) have "foreground env (reads st + Suc j) = []" by blast
    then show "foreground env (reads st1 + j) = []" by (simp add: st1_def)
  qed
  have "running st1" using Suc.prems(1) by (simp add: st1_def)
  with q have "sleep_loop env n st1 = st1\<lparr>reads := reads st1 + n, slept := slept st1 + 10 * n\<rparr>"
    using Suc.IH[of st1] by simp
  moreover have "sleep_loop env (Suc n) st = sleep_loop env n st1"
    using Suc.prems(1) q0 by (simp add: poll_quiet st1_def)
  ultimately show ?case by (simp add: st1_def)
qed

section \<open>Lemmas about the dataset file and the cycle\<close>

lemma reindex_schema: "length r = length schema \<Longrightarrow> reindex schema schema r = r"
proof -
  assume "length r = length schema"
  then have "length r = 3" by (simp add: schema_def)
  then obtain a b c where "r = [a, b, c]"
    by (cases r; cases "tl r"; cases "tl (tl r)") auto
  then show ?thesis by (simp add: reindex_def schema_def)
qed

lemma reindex_rows:
  "list_all (\<lambda>r. length r = length schema) rs \<Longrightarrow> map (reindex schema schema) rs = rs"
  by (induction rs) (simp_all add: reindex_schema)

lemma row_of_length: "list_all (\<lambda>r. length r = length schema) (map row_of d)"
  by (induction d) (simp_all add: row_of_def schema_def)

lemma pd_concat_schema:
  "d \<noteq> [] \<Longrightarrow> list_all (\<lambda>r. length r = length schema) old \<Longrightarrow>
   pd_concat \<lparr>columns = schema, rows = old\<rparr> (DataFrame d) =
     \<lparr>columns = schema, rows = old @ map row_of d\<rparr>"
  using reindex_rows[OF row_of_length[of d]] by (simp add: pd_concat_def DataFrame_def reindex_rows)

lemma read_rows_length:
  "list_all (\<lambda>r. length r = length schema) rs \<Longrightarrow>
   list_all (\<lambda>r. length r = length schema) (map (map g) rs)"
  by (induction rs) simp_all

lemma written_schema: "written \<lparr>columns = schema, rows = rs\<rparr> = Table \<lparr>columns = schema, rows = rs\<rparr>"
  by (simp add: written_def schema_def)

lemma save_data_appends:
  assumes "data st \<noteq> []" and "write_error fsys f = None" and "holds_dataset fsys f old"
  shows "save_data env f st fsys =
           Inr (log (DataSaved f) st,
                with_table fsys f (map (map (read_cell env)) old @ map row_of (data st)))"
proof (cases "files fsys f")
  case None
  with assms show ?thesis
    by (simp add: save_data_def read_csv_def write_and_log_def to_csv_def with_table_def
        holds_dataset_def DataFrame_def written_schema)
next
  case (Some c)
  with assms(3) obtain df where c: "c = Table df" and df: "columns df = schema" "rows df = old"
    "list_all (\<lambda>r. length r = length schema) old"
    by (cases c) (auto simp: holds_dataset_def)
  have rd: "read_csv env fsys f =
      Inr \<lparr>columns = schema, rows = map (map (read_cell env)) old\<rparr>"
    using Some c df(1,2) by (simp add: read_csv_def)
  have "pd_concat \<lparr>columns = schema, rows = map (map (read_cell env)) old\<rparr> (DataFrame (data st)) =
      \<lparr>columns = schema, rows = map (map (read_cell env)) old @ map row_of (data st)\<rparr>"
    by (rule pd_concat_schema[OF assms(1) read_rows_length[OF df(3)]])
  with rd assms(2) show ?thesis
    by (simp add: save_data_def write_and_log_def to_csv_def with_table_def written_schema)
qed

lemma reads_back_append:
  "reads_back env (a @ b) = (reads_back env a \<and> reads_back env b)"
  by (simp add: reads_back_def)

lemma save_data_appends_back:
  assumes "data st \<noteq> []" and "write_error fsys f = None" and "holds_dataset fsys f old"
    and "reads_back env old"
  shows "save_data env f st fsys =
           Inr (log (DataSaved f) st, with_table fsys f (old @ map row_of (data st)))"
  using save_data_appends[OF assms(1,2,3), of env] assms(4) by (simp add: reads_back_def)

lemma holds_with_table:
  "list_all (\<lambda>r. length r = length schema) rs \<Longrightarrow> holds_dataset (with_table fsys f rs) f rs"
  by (simp add: holds_dataset_def with_table_def)

lemma holds_rows_ok:
  "holds_dataset fsys f old \<Longrightarrow> list_all (\<lambda>r. length r = length schema) old"
  by (auto simp: holds_dataset_def split: option.splits file_content.splits)

lemma table_at_with_table:
  "table_at (with_table fsys f rs) f = Some \<lparr>columns = schema, rows = rs\<rparr>"
  by (simp add: table_at_def with_table_def)

lemma with_table_twice: "with_table (with_table fsys f a) f b = with_table fsys f b"
  by (simp add: with_table_def)

lemma write_error_with_table: "write_error (with_table fsys f a) = write_error fsys"
  by (simp add: with_table_def)

lemma act_frame:
  "reads (act a st) = reads st" "slept (act a st) = slept st" "data (act a st) = data st"
  "sites (act a st) = sites st" "interval (act a st) = interval st"
  by (cases a; simp add: start_def stop_def log_def)+

lemma fold_act_frame:
  "reads (fold act as st) = reads st \<and> slept (fold act as st) = slept st
   \<and> data (fold act as st) = data st \<and> sites (fold act as st) = sites st
   \<and> interval (fold act as st) = interval st"
  by (induction as arbitrary: st) (simp_all add: act_frame)

lemma stop_not_running: "\<not> running (stop st)"
  by (simp add: stop_def log_def)

lemma stop_frame: "slept (stop st) = slept st" "reads (stop st) = reads st"
  by (simp_all add: stop_def log_def)

lemma poll_stop:
  "foreground env (reads st) = calls @ [Stop] \<Longrightarrow>
   \<not> running (poll env st) \<and> slept (poll env st) = slept st \<and> reads (poll env st) = Suc (reads st)"
  by (simp add: poll_def stop_not_running fold_act_frame stop_frame)

lemma sleep_loop_prefix:
  "running st \<Longrightarrow> i \<le> n \<Longrightarrow> \<forall>j<i. foreground env (reads st + j) = [] \<Longrightarrow>
   sleep_loop env n st =
     sleep_loop env (n - i) (st\<lparr>reads := reads st + i, slept := slept st + 10 * i\<rparr>)"
proof (induction i arbitrary: st n)
  case 0
  then show ?case by simp
next
  case (Suc i)
  then obtain m where n: "n = Suc m" by (cases n) auto
  from Suc.prems(3) have q0: "foreground env (reads st) = []" by auto
  define st1 where "st1 = st\<lparr>reads := Suc (reads st), slept := slept st + 10\<rparr>"
  have q: "\<forall>j<i. foreground env (reads st1 + j) = []"
  proof (intro allI impI)
    fix j assume "j < i"
    then have "Suc j < Suc i" by simp
    with Suc.prems(3) have "foreground env (reads st + Suc j) = []" by blast
    then show "foreground env (reads st1 + j) = []" by (simp add: st1_def)
  qed
  have "running st1" using Suc.prems(1) by (simp add: st1_def)
  moreover have "i \<le> m" using Suc.prems(2) n by simp
  ultimately have "sleep_loop env m st1 =
     sleep_loop env (m - i) (st1\<lparr>reads := reads st1 + i, slept := slept st1 + 10 * i\<rparr>)"
    using Suc.IH[of st1 m] q by simp
  moreover have "sleep_loop env (Suc m) st = sleep_loop env m st1"
    using Suc.prems(1) q0 by (simp add: poll_quiet st1_def)
  ultimately show ?case by (simp add: n st1_def add.assoc)
qed

lemma stop_in_sleep:
  assumes "running st" and "i \<le> n"
    and "\<forall>j<i. foreground env (reads st + j) = []"
    and "foreground env (reads st + i) = calls @ [Stop]"
    and "foreground env (Suc (reads st + i)) = []"
  shows "finished (run_bot (Suc fuel) env (sleep_loop env n st) fsys)
       \<and> slept (final_bot (run_bot (Suc fuel) env (sleep_loop env n st) fsys)) = slept st + 10 * i
       \<and> \<not> running (final_bot (run_bot (Suc fuel) env (sleep_loop env n st) fsys))
       \<and> last (logs (final_bot (run_bot (Suc fuel) env (sleep_loop env n st) fsys))) = BotStopped
       \<and> final_files (run_bot (Suc fuel) env (sleep_loop env n st) fsys) = fsys"
proof -
  define sti where "sti = st\<lparr>reads := reads st + i, slept := slept st + 10 * i\<rparr>"
  have pre: "sleep_loop env n st = sleep_loop env (n - i) sti"
    using sleep_loop_prefix[OF assms(1,2,3)] by (simp add: sti_def)
  have fg: "foreground env (reads sti) = calls @ [Stop]" using assms(4) by (simp add: sti_def)
  note ps = poll_stop[OF fg]
  show ?thesis
  proof (cases "n - i")
    case 0
    then have "sleep_loop env n st = sti" using pre by simp
    then show ?thesis using ps by (simp add: Let_def log_def sti_def)
  next
    case (Suc m)
    then have sl: "sleep_loop env n st = poll env sti" using pre ps by (simp add: Let_def)
    have "foreground env (reads (poll env sti)) = []" using ps assms(5) by (simp add: sti_def)
    then have "poll env (poll env sti) = (poll env sti)\<lparr>reads := Suc (reads (poll env sti))\<rparr>"
      by (rule poll_quiet)
    then show ?thesis using ps by (simp add: sl Let_def log_def sti_def)
  qed
qed

lemma run_bot_step:
  "running (poll env st) \<Longrightarrow>
   save_if_data env (scrape_all_sites env (log StartingRound (poll env st))) fsys = Inr (st3, fs3) \<Longrightarrow>
   run_bot (Suc n) env st fsys =
     run_bot n env
       (sleep_loop env (nat (interval st3 * 6)) (log (SleepingFor (interval st3)) st3)) fs3"
  by (simp add: Let_def log_def)

lemma run_bot_raise:
  "running (poll env st) \<Longrightarrow>
   save_if_data env (scrape_all_sites env (log StartingRound (poll env st))) fsys = Inl (e, fs2) \<Longrightarrow>
   run_bot (Suc n) env st fsys =
     Raised e (scrape_all_sites env (log StartingRound (poll env st))) fs2"
  by (simp add: Let_def)

lemma scrape_all_sites_quiet:
  assumes "running st" and "\<forall>j<length (sites st). foreground env (reads st + j) = []"
  shows "scrape_all_sites env st =
     st\<lparr>reads := reads st + length (sites st),
        data := round_result env (reads st) (sites st),
        logs := logs st @ round_log env (reads st) (sites st)\<rparr>"
  unfolding scrape_all_sites_def
  using scrape_loop_quiet[of "st\<lparr>data := []\<rparr>" "sites st" env] assms by simp

lemma run_bot_quiet:
  assumes quiet: "\<forall>j. foreground env j = []"
  shows "running st \<Longrightarrow> write_error fsys default_filename = None \<Longrightarrow>
     holds_dataset fsys default_filename old \<Longrightarrow>
     reads_back env (old @ map row_of (cycle_rows env (reads st) (sites st) (interval st) n)) \<Longrightarrow>
     out_of_fuel (run_bot n env st fsys)
     \<and> holds_dataset (final_files (run_bot n env st fsys)) default_filename
         (old @ map row_of (cycle_rows env (reads st) (sites st) (interval st) n))"
proof (induction n arbitrary: st fsys old)
  case 0
  then show ?case by simp
next
  case (Suc n)
  define st1 where "st1 = log StartingRound (poll env st)"
  have p: "poll env st = st\<lparr>reads := Suc (reads st)\<rparr>" using quiet by (simp add: poll_quiet)
  have rp: "running (poll env st)" using Suc.prems(1) by (simp add: p)
  have f1: "running st1" "reads st1 = Suc (reads st)" "sites st1 = sites st"
    "interval st1 = interval st"
    using Suc.prems(1) by (simp_all add: st1_def p log_def)
  define new where "new = round_result env (Suc (reads st)) (sites st)"
  define st2 where "st2 = scrape_all_sites env st1"
  have st2: "st2 = st1\<lparr>reads := reads st1 + length (sites st1),
        data := round_result env (reads st1) (sites st1),
        logs := logs st1 @ round_log env (reads st1) (sites st1)\<rparr>"
    unfolding st2_def using scrape_all_sites_quiet[of st1 env] f1(1) quiet by simp
  have f2: "running st2" "reads st2 = Suc (reads st) + length (sites st)" "sites st2 = sites st"
    "interval st2 = interval st" "data st2 = new"
    using f1 by (simp_all add: st2 new_def)
  define n6 where "n6 = nat (interval st * 6)"
  define rest where
    "rest = cycle_rows env (Suc (reads st) + length (sites st) + n6) (sites st) (interval st) n"
  have rb: "reads_back env old" "reads_back env (old @ map row_of new)"
    "reads_back env ((old @ map row_of new) @ map row_of rest)"
    using Suc.prems(4) by (simp_all add: reads_back_append new_def rest_def n6_def)
  have "\<exists>st3 fs3. save_if_data env st2 fsys = Inr (st3, fs3) \<and> running st3
      \<and> reads st3 = reads st2 \<and> sites st3 = sites st \<and> interval st3 = interval st
      \<and> write_error fs3 default_filename = None
      \<and> holds_dataset fs3 default_filename (old @ map row_of new)"
  proof (cases "new = []")
    case True
    then show ?thesis using f2 Suc.prems(2,3) by (simp add: save_if_data_def log_def)
  next
    case False
    have ok: "list_all (\<lambda>r. length r = length schema) (old @ map row_of new)"
      using holds_rows_ok[OF Suc.prems(3)] row_of_length[of new] by simp
    have "save_data env default_filename st2 fsys =
        Inr (log (DataSaved default_filename) st2,
             with_table fsys default_filename (old @ map row_of new))"
      using save_data_appends_back[of st2 fsys default_filename old env] False f2(5)
        Suc.prems(2,3) rb(1)
      by simp
    then show ?thesis
      using False f2 Suc.prems(2) holds_with_table[OF ok, of fsys default_filename]
      by (simp add: save_if_data_def log_def write_error_with_table)
  qed
  then obtain st3 fs3 where sv: "save_if_data env st2 fsys = Inr (st3, fs3)"
    and f3: "running st3" "reads st3 = reads st2" "sites st3 = sites st"
      "interval st3 = interval st"
    and w3: "write_error fs3 default_filename = None"
    and h3: "holds_dataset fs3 default_filename (old @ map row_of new)"
    by blast
  define st4 where "st4 = log (SleepingFor (interval st3)) st3"
  have f4: "running st4" "reads st4 = Suc (reads st) + length (sites st)" "sites st4 = sites st"
    "interval st4 = interval st"
    using f3 f2(2) by (simp_all add: st4_def log_def)
  define st5 where "st5 = sleep_loop env n6 st4"
  have st5: "st5 = st4\<lparr>reads := reads st4 + n6, slept := slept st4 + 10 * n6\<rparr>"
    unfolding st5_def using sleep_loop_quiet[of st4 n6 env] f4(1) quiet by simp
  have f5: "running st5" "reads st5 = Suc (reads st) + length (sites st) + n6"
    "sites st5 = sites st" "interval st5 = interval st"
    using f4 by (simp_all add: st5)
  have step: "run_bot (Suc n) env st fsys = run_bot n env st5 fs3"
    using run_bot_step[OF rp, of fsys st3 fs3 n] sv
    by (simp add: st2_def st1_def st5_def st4_def n6_def f3(4))
  have "reads_back env ((old @ map row_of new)
      @ map row_of (cycle_rows env (reads st5) (sites st5) (interval st5) n))"
    using rb(3) by (simp add: f5 rest_def)
  from Suc.IH[of st5 fs3 "old @ map row_of new", OF f5(1) w3 h3 this]
  show ?case
    unfolding step
    by (simp add: f5 new_def n6_def del: run_bot.simps)
qed

section \<open>The claims\<close>

subsection \<open>Start and stop\<close>



subsection \<open>Persisting a round\<close>

text \<open>
  Claim C7. When the round has collected nothing, \<open>run_bot\<close> does not call \<open>save_data\<close>:
  it logs that no data was scraped, and every file, the dataset file among them, is what
  it was.
\<close>

theorem empty_round_leaves_files:
  "data st = [] \<Longrightarrow> save_if_data env st fsys = Inr (log NoDataScraped st, fsys)"
  by (simp add: save_if_data_def)

theorem empty_round_leaves_files_witness:
  "data init_bot = []
 \<and> save_if_data shop_env init_bot (disk_with default_filename (Table \<lparr>columns = schema, rows = old_rows\<rparr>)) =
     Inr (log NoDataScraped init_bot,
          disk_with default_filename (Table \<lparr>columns = schema, rows = old_rows\<rparr>))"
proof -
  have d: "data init_bot = []" by (simp add: init_bot_def)
  from empty_round_leaves_files[OF d, of shop_env] d show ?thesis by simp
qed

text \<open>
  Claim C1, as the code has it. Let the dataset at \<open>f\<close> have the rows \<open>old\<close> (the file
  absent, or a table with the columns url, price, timestamp), let \<open>f\<close> be writable, and let
  pandas read the cells of \<open>old\<close> and of round 1 back as they were written. Saving a
  non-empty round \<open>r1\<close> and then a non-empty round \<open>r2\<close> succeeds and leaves at \<open>f\<close> the
  table with the same three columns in the same order and the rows \<open>old\<close>, then those of
  \<open>r1\<close>, then those of \<open>r2\<close>: as many rows as \<open>old\<close>, \<open>r1\<close> and \<open>r2\<close> have together.
\<close>

theorem two_rounds_appended:
  assumes "r1 \<noteq> []" and "r2 \<noteq> []" and "write_error fsys f = None" and "holds_dataset fsys f old"
    and "reads_back env old" and "reads_back env (map row_of r1)"
  shows "saved_table (save_twice env f r1 r2 st fsys) f =
           Some \<lparr>columns = schema, rows = old @ map row_of r1 @ map row_of r2\<rparr>
       \<and> length (old @ map row_of r1 @ map row_of r2) = length old + length r1 + length r2"
proof -
  have ok: "list_all (\<lambda>r. length r = length schema) (old @ map row_of r1)"
    using holds_rows_ok[OF assms(4)] row_of_length[of r1] by simp
  have a: "save_data env f (st\<lparr>data := r1\<rparr>) fsys =
           Inr (log (DataSaved f) (st\<lparr>data := r1\<rparr>), with_table fsys f (old @ map row_of r1))"
    using save_data_appends_back[of "st\<lparr>data := r1\<rparr>" fsys f old env] assms by simp
  have rb: "reads_back env (old @ map row_of r1)"
    using assms(5,6) by (simp add: reads_back_append)
  have b: "save_data env f ((log (DataSaved f) (st\<lparr>data := r1\<rparr>))\<lparr>data := r2\<rparr>)
             (with_table fsys f (old @ map row_of r1)) =
           Inr (log (DataSaved f) ((log (DataSaved f) (st\<lparr>data := r1\<rparr>))\<lparr>data := r2\<rparr>),
                with_table fsys f (old @ map row_of r1 @ map row_of r2))"
    using save_data_appends_back[of "(log (DataSaved f) (st\<lparr>data := r1\<rparr>))\<lparr>data := r2\<rparr>"
        "with_table fsys f (old @ map row_of r1)" f "old @ map row_of r1" env]
      assms(2,3) holds_with_table[OF ok] rb
    by (simp add: write_error_with_table with_table_twice)
  have "save_twice env f r1 r2 st fsys =
      Inr (log (DataSaved f) ((log (DataSaved f) (st\<lparr>data := r1\<rparr>))\<lparr>data := r2\<rparr>),
           with_table fsys f (old @ map row_of r1 @ map row_of r2))"
    unfolding save_twice_def a using b by simp
  then show ?thesis by (simp add: saved_table_def table_at_with_table)
qed

theorem two_rounds_appended_witness:
  "holds_dataset (disk_with default_filename (Table \<lparr>columns = schema, rows = old_rows\<rparr>))
     default_filename old_rows
 \<and> reads_back shop_env old_rows \<and> reads_back shop_env (map row_of [obs_a])
 \<and> saved_table
      (save_twice shop_env default_filename [obs_a] [obs_b] init_bot
         (disk_with default_filename (Table \<lparr>columns = schema, rows = old_rows\<rparr>)))
      default_filename =
     Some \<lparr>columns = [''url'', ''price'', ''timestamp''],
           rows = [[Str ''http://shop/a'', Str ''$11.99'', Time 0],
                   [Str ''http://shop/a'', Str ''$12.99'', Time 7],
                   [Str ''http://shop/b'', Str ''5'', Time 9]]\<rparr>"
proof -
  let ?fs = "disk_with default_filename (Table \<lparr>columns = schema, rows = old_rows\<rparr>)"
  have h: "holds_dataset ?fs default_filename old_rows"
    by (simp add: holds_dataset_def disk_with_def old_rows_def schema_def)
  have w: "write_error ?fs default_filename = None" by (simp add: disk_with_def)
  have b1: "reads_back shop_env old_rows" by code_simp
  have b2: "reads_back shop_env (map row_of [obs_a])" by code_simp
  have r: "old_rows @ map row_of [obs_a] @ map row_of [obs_b] =
     [[Str ''http://shop/a'', Str ''$11.99'', Time 0],
      [Str ''http://shop/a'', Str ''$12.99'', Time 7],
      [Str ''http://shop/b'', Str ''5'', Time 9]]"
    by (simp add: old_rows_def row_of_def obs_a_def obs_b_def)
  have n1: "[obs_a] \<noteq> []" and n2: "[obs_b] \<noteq> []" by simp_all
  from two_rounds_appended[OF n1 n2 w h b1 b2, of init_bot] h b1 b2 show ?thesis
    unfolding r by (simp add: schema_def)
qed

text \<open>
  As stated, C1 has the rows of the first round stand in the dataset as they were saved.
  A page that shows \<open>N/A\<close> for the price gives an observation with that price; the first
  save writes it, and the second save reads it back as a missing value and writes the row
  with an empty price.
\<close>

theorem two_rounds_na_price_counterexample:
  "map row_of [obs_na] @ map row_of [obs_b] =
     [[Str ''http://shop/c'', Str ''N/A'', Time 3], [Str ''http://shop/b'', Str ''5'', Time 9]]
 \<and> saved_table (save_twice shop_env default_filename [obs_na] [obs_b] init_bot empty_disk)
      default_filename =
     Some \<lparr>columns = [''url'', ''price'', ''timestamp''],
           rows = [[Str ''http://shop/c'', NaN, Time 3], [Str ''http://shop/b'', Str ''5'', Time 9]]\<rparr>"
  by code_simp

text \<open>
  Claim C4, as the code has it. When the dataset file is absent, or is a table with the
  three columns and no row, and the path is writable, saving a non-empty round succeeds
  and the file is then the table with the columns url, price, timestamp, in that order,
  and exactly the round's rows.
\<close>

theorem save_data_no_dataset:
  assumes "d \<noteq> []" and "write_error fsys f = None"
    and "files fsys f = None \<or> files fsys f = Some (Table \<lparr>columns = schema, rows = []\<rparr>)"
  shows "save_data env f (st\<lparr>data := d\<rparr>) fsys =
           Inr (log (DataSaved f) (st\<lparr>data := d\<rparr>), with_table fsys f (map row_of d))"
proof -
  have "holds_dataset fsys f []" using assms(3) by (auto simp: holds_dataset_def)
  from save_data_appends[of "st\<lparr>data := d\<rparr>" fsys f "[]" env, OF _ assms(2) this] assms(1)
  show ?thesis by simp
qed

theorem save_data_no_dataset_witness:
  "save_data shop_env default_filename (init_bot\<lparr>data := [obs_a]\<rparr>) empty_disk =
     Inr (log (DataSaved default_filename) (init_bot\<lparr>data := [obs_a]\<rparr>),
          with_table empty_disk default_filename (map row_of [obs_a]))
 \<and> save_data shop_env default_filename (init_bot\<lparr>data := [obs_a]\<rparr>)
       (disk_with default_filename (Table \<lparr>columns = schema, rows = []\<rparr>)) =
     Inr (log (DataSaved default_filename) (init_bot\<lparr>data := [obs_a]\<rparr>),
          with_table (disk_with default_filename (Table \<lparr>columns = schema, rows = []\<rparr>))
            default_filename (map row_of [obs_a]))
 \<and> files (with_table empty_disk default_filename (map row_of [obs_a])) default_filename =
     Some (Table \<lparr>columns = [''url'', ''price'', ''timestamp''],
                  rows = [[Str ''http://shop/a'', Str ''$12.99'', Time 7]]\<rparr>)"
proof -
  have n: "[obs_a] \<noteq> []" by simp
  have w1: "write_error empty_disk default_filename = None" by (simp add: empty_disk_def)
  have a1: "files empty_disk default_filename = None
      \<or> files empty_disk default_filename = Some (Table \<lparr>columns = schema, rows = []\<rparr>)"
    by (simp add: empty_disk_def)
  let ?fs = "disk_with default_filename (Table \<lparr>columns = schema, rows = []\<rparr>)"
  have w2: "write_error ?fs default_filename = None" by (simp add: disk_with_def)
  have a2: "files ?fs default_filename = None
      \<or> files ?fs default_filename = Some (Table \<lparr>columns = schema, rows = []\<rparr>)"
    by (simp add: disk_with_def)
  have r: "files (with_table empty_disk default_filename (map row_of [obs_a])) default_filename =
     Some (Table \<lparr>columns = [''url'', ''price'', ''timestamp''],
                  rows = [[Str ''http://shop/a'', Str ''$12.99'', Time 7]]\<rparr>)"
    by (simp add: with_table_def schema_def row_of_def obs_a_def)
  from save_data_no_dataset[OF n w1 a1, of shop_env init_bot]
    save_data_no_dataset[OF n w2 a2, of shop_env init_bot] r
  show ?thesis by blast
qed

text \<open>
  As stated, C4 also covers an empty file. A file of zero bytes is not a missing file:
  \<open>read_csv\<close> raises \<open>EmptyDataError\<close> on it, \<open>save_data\<close> catches \<open>FileNotFoundError\<close>
  only, and the save fails.
\<close>

theorem save_data_zero_byte_file_counterexample:
  "save_data shop_env default_filename (init_bot\<lparr>data := [obs_a]\<rparr>)
     (disk_with default_filename ZeroBytes)
     = Inl (EmptyDataError, disk_with default_filename ZeroBytes)"
  by (simp add: save_data_def read_csv_def disk_with_def)

text \<open>
  Claim C3, as the code has it. In a round that has collected data, a failure to read the
  dataset file other than \<open>FileNotFoundError\<close>, and a failure to write it, is raised by
  \<open>save_data\<close>; \<open>run_bot\<close> has no handler around the call, so the exception leaves
  \<open>run_bot\<close> and the cycle ends in that round: nothing is logged about the failure, there
  is no sleep and no further round. After a failure to read the file, or to open it for
  writing, the files are what they were; after a failure while writing, the dataset file
  holds what had been written of it by then.
\<close>

theorem persist_error_ends_cycle:
  assumes "running (poll env st)"
    and "st2 = scrape_all_sites env (log StartingRound (poll env st))"
    and "data st2 \<noteq> []"
  shows "(read_csv env fsys default_filename = Inl e \<and> e \<noteq> FileNotFoundError
          \<longrightarrow> run_bot (Suc n) env st fsys = Raised e st2 fsys)
       \<and> ((read_csv env fsys default_filename = Inl FileNotFoundError
             \<or> (\<exists>df. read_csv env fsys default_filename = Inr df))
            \<and> write_error fsys default_filename = Some (OpenFails e)
          \<longrightarrow> run_bot (Suc n) env st fsys = Raised e st2 fsys)
       \<and> ((read_csv env fsys default_filename = Inl FileNotFoundError
             \<or> (\<exists>df. read_csv env fsys default_filename = Inr df))
            \<and> write_error fsys default_filename = Some (WriteFails e left)
          \<longrightarrow> run_bot (Suc n) env st fsys =
                Raised e st2 (fsys\<lparr>files := (files fsys)(default_filename \<mapsto> left)\<rparr>))"
proof (intro conjI impI)
  assume "read_csv env fsys default_filename = Inl e \<and> e \<noteq> FileNotFoundError"
  then have "save_data env default_filename st2 fsys = Inl (e, fsys)"
    by (simp add: save_data_def)
  then have "save_if_data env st2 fsys = Inl (e, fsys)"
    using assms(3) by (simp add: save_if_data_def)
  with run_bot_raise[OF assms(1), of fsys e fsys n] assms(2)
  show "run_bot (Suc n) env st fsys = Raised e st2 fsys" by simp
next
  assume "(read_csv env fsys default_filename = Inl FileNotFoundError
             \<or> (\<exists>df. read_csv env fsys default_filename = Inr df))
            \<and> write_error fsys default_filename = Some (OpenFails e)"
  then have "save_data env default_filename st2 fsys = Inl (e, fsys)"
    by (auto simp: save_data_def write_and_log_def to_csv_def)
  then have "save_if_data env st2 fsys = Inl (e, fsys)"
    using assms(3) by (simp add: save_if_data_def)
  with run_bot_raise[OF assms(1), of fsys e fsys n] assms(2)
  show "run_bot (Suc n) env st fsys = Raised e st2 fsys" by simp
next
  let ?left = "fsys\<lparr>files := (files fsys)(default_filename \<mapsto> left)\<rparr>"
  assume "(read_csv env fsys default_filename = Inl FileNotFoundError
             \<or> (\<exists>df. read_csv env fsys default_filename = Inr df))
            \<and> write_error fsys default_filename = Some (WriteFails e left)"
  then have "save_data env default_filename st2 fsys = Inl (e, ?left)"
    by (auto simp: save_data_def write_and_log_def to_csv_def)
  then have "save_if_data env st2 fsys = Inl (e, ?left)"
    using assms(3) by (simp add: save_if_data_def)
  with run_bot_raise[OF assms(1), of fsys e ?left n] assms(2)
  show "run_bot (Suc n) env st fsys = Raised e st2 ?left" by simp
qed

theorem persist_error_ends_cycle_witness:
  "running (poll shop_env shop_bot)
 \<and> read_csv shop_env (disk_with default_filename (Unreadable PermissionError)) default_filename
     = Inl PermissionError
 \<and> run_bot (Suc 0) shop_env shop_bot (disk_with default_filename (Unreadable PermissionError)) =
     Raised PermissionError (scrape_all_sites shop_env (log StartingRound (poll shop_env shop_bot)))
       (disk_with default_filename (Unreadable PermissionError))
 \<and> read_csv shop_env locked_disk default_filename = Inl FileNotFoundError
 \<and> write_error locked_disk default_filename = Some (OpenFails PermissionError)
 \<and> run_bot (Suc 0) shop_env shop_bot locked_disk =
     Raised PermissionError (scrape_all_sites shop_env (log StartingRound (poll shop_env shop_bot)))
       locked_disk
 \<and> write_error full_disk default_filename
     = Some (WriteFails (OSError ''No space left on device'') ZeroBytes)
 \<and> run_bot (Suc 0) shop_env shop_bot full_disk =
     Raised (OSError ''No space left on device'')
       (scrape_all_sites shop_env (log StartingRound (poll shop_env shop_bot)))
       (full_disk\<lparr>files := (files full_disk)(default_filename \<mapsto> ZeroBytes)\<rparr>)"
proof -
  let ?fs = "disk_with default_filename (Unreadable PermissionError)"
  have r: "running (poll shop_env shop_bot)" by code_simp
  have d: "data (scrape_all_sites shop_env (log StartingRound (poll shop_env shop_bot))) \<noteq> []"
    by code_simp
  have rd: "read_csv shop_env ?fs default_filename = Inl PermissionError"
    by (simp add: read_csv_def disk_with_def)
  have rl: "read_csv shop_env locked_disk default_filename = Inl FileNotFoundError"
    by (simp add: read_csv_def locked_disk_def)
  have wl: "write_error locked_disk default_filename = Some (OpenFails PermissionError)"
    by (simp add: locked_disk_def)
  have rf: "\<exists>df. read_csv shop_env full_disk default_filename = Inr df"
    by (simp add: read_csv_def full_disk_def)
  have wf: "write_error full_disk default_filename
      = Some (WriteFails (OSError ''No space left on device'') ZeroBytes)"
    by (simp add: full_disk_def)
  note t = persist_error_ends_cycle[OF r refl d]
  from t[where fsys = ?fs and e = PermissionError and n = 0] rd
  have a: "run_bot (Suc 0) shop_env shop_bot ?fs =
     Raised PermissionError (scrape_all_sites shop_env (log StartingRound (poll shop_env shop_bot))) ?fs"
    by blast
  from t[where fsys = locked_disk and e = PermissionError and n = 0] rl wl
  have b: "run_bot (Suc 0) shop_env shop_bot locked_disk =
     Raised PermissionError (scrape_all_sites shop_env (log StartingRound (poll shop_env shop_bot)))
       locked_disk"
    by blast
  from t[where fsys = full_disk and e = "OSError ''No space left on device''" and n = 0
      and left = ZeroBytes] rf wf
  have c: "run_bot (Suc 0) shop_env shop_bot full_disk =
     Raised (OSError ''No space left on device'')
       (scrape_all_sites shop_env (log StartingRound (poll shop_env shop_bot)))
       (full_disk\<lparr>files := (files full_disk)(default_filename \<mapsto> ZeroBytes)\<rparr>)"
    by blast
  from r rd a rl wl b wf c show ?thesis by blast
qed

text \<open>
  As stated, C3 has the failure reported and the cycle going on to the next round. With a
  malformed dataset file, fuel for three rounds and nobody stopping the bot, the cycle
  begins one round and ends with \<open>ParserError\<close>; the flag is still set.
\<close>

theorem malformed_dataset_ends_cycle_counterexample:
  "raised (run_bot 3 shop_env shop_bot (disk_with default_filename (Unreadable ParserError)))
     = Some ParserError
 \<and> \<not> finished (run_bot 3 shop_env shop_bot (disk_with default_filename (Unreadable ParserError)))
 \<and> running (final_bot
      (run_bot 3 shop_env shop_bot (disk_with default_filename (Unreadable ParserError))))
 \<and> count_list (logs (final_bot
      (run_bot 3 shop_env shop_bot (disk_with default_filename (Unreadable ParserError)))))
      StartingRound = 1"
  by code_simp

subsection \<open>Extraction\<close>

lemma parsed_defaults:
  "map parse_selector common_selectors =
     [Some (ByClass ''price''), Some (ById ''price''), Some (ClassContains ''price''),
      Some (IdContains ''price'')]"
  by code_simp

text \<open>
  Claim C5, as the code has it. With no selector, the four default selectors are tried in
  the order \<open>.price\<close>, \<open>#price\<close>, class attribute containing \<open>price\<close>, id attribute
  containing \<open>price\<close>; the first that matches an element decides, and the result is that
  element's text as \<open>get_text(strip=True)\<close> gives it: every text node below the element
  stripped, joined with nothing between them. If none of the four matches, the call fails
  with the \<open>ValueError\<close> for the default selectors. The example of the claim,
  \<open><div id="price">19.99</div>\<close> with no \<open>.price\<close> class, is in the witness.
\<close>

theorem default_selectors_in_order:
  assumes "select_one env = simple_select_one"
  shows "extract_price env doc None =
     (case find (matches (ByClass ''price'')) doc of
        Some e \<Rightarrow> Inr (get_text_strip e)
      | None \<Rightarrow>
     (case find (matches (ById ''price'')) doc of
        Some e \<Rightarrow> Inr (get_text_strip e)
      | None \<Rightarrow>
     (case find (matches (ClassContains ''price'')) doc of
        Some e \<Rightarrow> Inr (get_text_strip e)
      | None \<Rightarrow>
     (case find (matches (IdContains ''price'')) doc of
        Some e \<Rightarrow> Inr (get_text_strip e)
      | None \<Rightarrow> Inl (ValueError not_found_default)))))"
proof -
  obtain a b c d where cs: "common_selectors = [a, b, c, d]"
    by (simp add: common_selectors_def)
  from parsed_defaults[unfolded cs] have p: "parse_selector a = Some (ByClass ''price'')"
    "parse_selector b = Some (ById ''price'')" "parse_selector c = Some (ClassContains ''price'')"
    "parse_selector d = Some (IdContains ''price'')"
    by simp_all
  show ?thesis
    by (simp add: cs assms simple_select_one_def p split: option.split)
qed

theorem default_selectors_in_order_witness:
  "select_one offline_env = simple_select_one
 \<and> find (matches (ByClass ''price'')) [div_price] = None
 \<and> find (matches (ById ''price'')) [div_price] = Some div_price
 \<and> extract_price offline_env [div_price] None = Inr ''19.99''"
proof -
  have s: "select_one offline_env = simple_select_one"
    by (simp add: offline_env_def quiet_env_def)
  have f1: "find (matches (ByClass ''price'')) [div_price] = None"
    by (simp add: div_price_def)
  have f2: "find (matches (ById ''price'')) [div_price] = Some div_price"
    by (simp add: div_price_def)
  have t: "get_text_strip div_price = ''19.99''" by code_simp
  from default_selectors_in_order[OF s, of "[div_price]"] s f1 f2 t show ?thesis by simp
qed

text \<open>
  As stated, C5 has the result be the element's visible text with the whitespace at its
  two ends removed. In \<open><div id="price">19 <sup>99</sup></div>\<close> no element has the class,
  \<open>#price\<close> selects the \<open>div\<close>, whose text is \<open>19 99\<close>, and the call returns \<open>1999\<close>: the
  space at the end of the first text node is stripped as well.
\<close>

theorem default_selectors_nested_text_counterexample:
  "simple_select_one ''.price'' [div_nested, sup_nested] = Inr None
 \<and> simple_select_one ''#price'' [div_nested, sup_nested] = Inr (Some div_nested)
 \<and> strip (get_text div_nested) = ''19 99''
 \<and> extract_price offline_env [div_nested, sup_nested] None = Inr ''1999''"
  by code_simp

text \<open>
  Claim C6, as the code has it. With a selector that is not the empty string: when
  \<open>select_one\<close> returns an element, the result is that element's text as
  \<open>get_text(strip=True)\<close> gives it; when \<open>select_one\<close> returns no element, the call fails
  with the \<open>ValueError\<close> that names the selector; and when \<open>select_one\<close> raises, because
  the string is not a selector, that exception is the failure. The empty string is treated
  as no selector at all. The example of the claim, \<open><span class="price"> $12.99 </span>\<close>
  with \<open>.price\<close>, is in the witness.
\<close>

theorem explicit_selector:
  "(sel \<noteq> [] \<and> select_one env sel doc = Inr (Some e)
      \<longrightarrow> extract_price env doc (Some sel) = Inr (get_text_strip e))
 \<and> (sel \<noteq> [] \<and> select_one env sel doc = Inr None
      \<longrightarrow> extract_price env doc (Some sel) = Inl (ValueError (not_found_with sel)))
 \<and> (sel \<noteq> [] \<and> select_one env sel doc = Inl x
      \<longrightarrow> extract_price env doc (Some sel) = Inl x)
 \<and> extract_price env doc (Some []) = extract_price env doc None"
  by (cases sel) simp_all

theorem explicit_selector_witness:
  "select_one offline_env ''.price'' [span_price] = Inr (Some span_price)
 \<and> extract_price offline_env [span_price] (Some ''.price'') = Inr ''$12.99''
 \<and> select_one offline_env ''.price'' [div_price] = Inr None
 \<and> extract_price offline_env [div_price] (Some ''.price'') = Inl (ValueError (not_found_with ''.price''))
 \<and> select_one offline_env ''.2x'' [span_price] = Inl SelectorSyntaxError
 \<and> extract_price offline_env [span_price] (Some ''.2x'') = Inl SelectorSyntaxError"
proof -
  have a: "select_one offline_env ''.price'' [span_price] = Inr (Some span_price)" by code_simp
  have b: "select_one offline_env ''.price'' [div_price] = Inr None" by code_simp
  have c: "select_one offline_env ''.2x'' [span_price] = Inl SelectorSyntaxError" by code_simp
  have t: "get_text_strip span_price = ''$12.99''" by code_simp
  have n: "''.price'' \<noteq> []" "''.2x'' \<noteq> []" by simp_all
  from explicit_selector[of "''.price''" offline_env "[span_price]" span_price]
    explicit_selector[of "''.price''" offline_env "[div_price]"]
    explicit_selector[of "''.2x''" offline_env "[span_price]" _ SelectorSyntaxError] a b c t n
  show ?thesis by simp
qed

text \<open>
  As stated, C6 fails in three ways. The empty string as selector selects nothing, and yet
  the call does not fail with the error that names it: it falls back to the default
  selectors and returns \<open>$12.99\<close>. The string \<open>.2x\<close> selects nothing either, being no
  selector, and the failure is the engine's \<open>SelectorSyntaxError\<close>, not the error that
  names the selector. And in \<open><span class="price">$ <b>12</b></span>\<close> the selector \<open>.price\<close>
  selects the \<open>span\<close>, whose text is \<open>$ 12\<close>, and the call returns \<open>$12\<close>.
\<close>

theorem explicit_selector_counterexample:
  "simple_select_one [] [span_price] = Inl SelectorSyntaxError
 \<and> extract_price offline_env [span_price] (Some []) = Inr ''$12.99''
 \<and> simple_select_one ''.2x'' [span_price] = Inl SelectorSyntaxError
 \<and> extract_price offline_env [span_price] (Some ''.2x'') = Inl SelectorSyntaxError
 \<and> simple_select_one ''.price'' [span_nested, b_nested] = Inr (Some span_nested)
 \<and> strip (get_text span_nested) = ''$ 12''
 \<and> extract_price offline_env [span_nested, b_nested] (Some ''.price'') = Inr ''$12''"
  by code_simp

subsection \<open>One round\<close>

text \<open>
  Claim C2. While nobody stops the bot, one pass over the targets visits every target in
  order, whatever happens at the others: a target whose fetch fails, whose HTTP status is
  an error, or whose selector finds nothing gives one error line in the log and no
  observation, and each target that succeeds gives its observation, in target order.
  \<open>scrape_all_sites\<close> returns a state in every case: no exception leaves it.
\<close>

theorem scrape_all_sites_skips_failures:
  assumes "running st" and "\<forall>j<length (sites st). foreground env (reads st + j) = []"
  shows "data (scrape_all_sites env st) = round_result env (reads st) (sites st)
       \<and> logs (scrape_all_sites env st) = logs st @ round_log env (reads st) (sites st)"
  using scrape_all_sites_quiet[OF assms] by simp

theorem scrape_all_sites_skips_failures_witness:
  "running shop_bot
 \<and> data (scrape_all_sites shop_env shop_bot) =
     [\<lparr>url = ''http://shop/a'', price = ''$12.99'', timestamp = 2\<rparr>,
      \<lparr>url = ''http://shop/a'', price = ''$12.99'', timestamp = 5\<rparr>]
 \<and> logs (scrape_all_sites shop_env shop_bot) =
     [BotStarted,
      Scraping ''http://shop/gone'', ErrorScraping ''http://shop/gone'' (HTTPError 404),
      Scraping ''http://shop/a'', PriceFound ''$12.99'',
      Scraping ''http://shop/down'',
      ErrorScraping ''http://shop/down'' (RequestException ''connection refused''),
      Scraping ''http://shop/plain'',
      ErrorScraping ''http://shop/plain'' (ValueError not_found_default),
      Scraping ''http://shop/a'', PriceFound ''$12.99'']"
proof -
  have r: "running shop_bot" by code_simp
  have q: "\<forall>j<length (sites shop_bot). foreground shop_env (reads shop_bot + j) = []"
    by (simp add: shop_env_def quiet_env_def)
  have k: "reads shop_bot = 0" "logs shop_bot = [BotStarted]" "sites shop_bot = shop_sites"
    by code_simp+
  have d: "round_result shop_env 0 shop_sites =
     [\<lparr>url = ''http://shop/a'', price = ''$12.99'', timestamp = 2\<rparr>,
      \<lparr>url = ''http://shop/a'', price = ''$12.99'', timestamp = 5\<rparr>]"
    by code_simp
  have l: "round_log shop_env 0 shop_sites =
     [Scraping ''http://shop/gone'', ErrorScraping ''http://shop/gone'' (HTTPError 404),
      Scraping ''http://shop/a'', PriceFound ''$12.99'',
      Scraping ''http://shop/down'',
      ErrorScraping ''http://shop/down'' (RequestException ''connection refused''),
      Scraping ''http://shop/plain'',
      ErrorScraping ''http://shop/plain'' (ValueError not_found_default),
      Scraping ''http://shop/a'', PriceFound ''$12.99'']"
    by code_simp
  from scrape_all_sites_skips_failures[OF r q] r show ?thesis by (simp add: k d l)
qed

subsection \<open>Several rounds\<close>

lemma act_data_update: "act a (st\<lparr>data := d\<rparr>) = (act a st)\<lparr>data := d\<rparr>"
  by (cases a) (simp_all add: start_def stop_def log_def)

lemma fold_act_data_update: "fold act as (st\<lparr>data := d\<rparr>) = (fold act as st)\<lparr>data := d\<rparr>"
  by (induction as arbitrary: st) (simp_all add: act_data_update)

lemma poll_data_update: "poll env (st\<lparr>data := d\<rparr>) = (poll env st)\<lparr>data := d\<rparr>"
  by (simp add: poll_def fold_act_data_update)

lemma scrape_all_sites_resets:
  "scrape_all_sites env (log m (st\<lparr>data := d\<rparr>)) = scrape_all_sites env (log m st)"
  by (simp add: scrape_all_sites_def log_def)

lemma run_bot_stale_buffer:
  "final_files (run_bot n env (st\<lparr>data := stale\<rparr>) fsys) = final_files (run_bot n env st fsys)"
proof (cases n)
  case 0
  then show ?thesis by simp
next
  case (Suc m)
  show ?thesis
  proof (cases "running (poll env st)")
    case True
    then show ?thesis
      by (simp add: Suc poll_data_update scrape_all_sites_resets Let_def)
  next
    case False
    then show ?thesis by (simp add: Suc poll_data_update Let_def)
  qed
qed

lemma save_if_data_appends:
  assumes "write_error fsys default_filename = None" and "holds_dataset fsys default_filename old"
    and "data st2 \<noteq> []"
  shows "\<exists>st3 fs3. save_if_data env st2 fsys = Inr (st3, fs3)
           \<and> holds_dataset fs3 default_filename
               (map (map (read_cell env)) old @ map row_of (data st2))"
proof -
  have ok: "list_all (\<lambda>r. length r = length schema)
      (map (map (read_cell env)) old @ map row_of (data st2))"
    using read_rows_length[OF holds_rows_ok[OF assms(2)]] row_of_length[of "data st2"] by simp
  from save_data_appends[OF assms(3,1,2), of env] assms(3)
    holds_with_table[OF ok, of fsys default_filename]
  show ?thesis by (simp add: save_if_data_def)
qed


text \<open>
  Claim C10. A round never saves what an earlier round collected. Whatever is left in
  \<open>self.data\<close> when the cycle begins a round has no effect on the files, because
  \<open>scrape_all_sites\<close> empties the buffer first. What a round with data saves is the
  rows that were in the file, as \<open>read_csv\<close> reads them, followed by the rows of the
  buffer as that round's pass left it, and nothing else. And while nobody stops the bot
  and the cells read back as written, after \<open>n\<close> rounds the dataset is the old rows
  followed by the observations of round 1, then of round 2, and so on to round \<open>n\<close>,
  each once.
\<close>

theorem each_round_appended_once:
  "final_files (run_bot n env (st\<lparr>data := stale\<rparr>) fsys) = final_files (run_bot n env st fsys)
 \<and> (write_error fsys default_filename = None \<and> holds_dataset fsys default_filename old
      \<and> data st2 \<noteq> [] \<longrightarrow>
      (\<exists>st3 fs3. save_if_data env st2 fsys = Inr (st3, fs3)
         \<and> holds_dataset fs3 default_filename
             (map (map (read_cell env)) old @ map row_of (data st2))))
 \<and> ((\<forall>j. foreground env j = []) \<and> running st \<and> write_error fsys default_filename = None
      \<and> holds_dataset fsys default_filename old
      \<and> reads_back env (old @ map row_of (cycle_rows env (reads st) (sites st) (interval st) n))
      \<longrightarrow>
      out_of_fuel (run_bot n env st fsys)
      \<and> holds_dataset (final_files (run_bot n env st fsys)) default_filename
          (old @ map row_of (cycle_rows env (reads st) (sites st) (interval st) n)))"
proof (intro conjI impI)
  show "final_files (run_bot n env (st\<lparr>data := stale\<rparr>) fsys) = final_files (run_bot n env st fsys)"
    by (rule run_bot_stale_buffer)
next
  assume "write_error fsys default_filename = None \<and> holds_dataset fsys default_filename old
      \<and> data st2 \<noteq> []"
  then show "\<exists>st3 fs3. save_if_data env st2 fsys = Inr (st3, fs3)
         \<and> holds_dataset fs3 default_filename
             (map (map (read_cell env)) old @ map row_of (data st2))"
    using save_if_data_appends by blast
next
  assume a: "(\<forall>j. foreground env j = []) \<and> running st \<and> write_error fsys default_filename = None
      \<and> holds_dataset fsys default_filename old
      \<and> reads_back env (old @ map row_of (cycle_rows env (reads st) (sites st) (interval st) n))"
  then have q: "\<forall>j. foreground env j = []" and r: "running st"
    and w: "write_error fsys default_filename = None"
    and h: "holds_dataset fsys default_filename old"
    and b: "reads_back env (old @ map row_of (cycle_rows env (reads st) (sites st) (interval st) n))"
    by blast+
  from run_bot_quiet[OF q r w h b]
  show "out_of_fuel (run_bot n env st fsys)"
    and "holds_dataset (final_files (run_bot n env st fsys)) default_filename
          (old @ map row_of (cycle_rows env (reads st) (sites st) (interval st) n))"
    by blast+
qed

theorem each_round_appended_once_witness:
  "(\<forall>j. foreground shop_env j = []) \<and> running shop_bot
 \<and> write_error empty_disk default_filename = None
 \<and> holds_dataset empty_disk default_filename []
 \<and> out_of_fuel (run_bot 2 shop_env shop_bot empty_disk)
 \<and> holds_dataset (final_files (run_bot 2 shop_env shop_bot empty_disk)) default_filename
     [[Str ''http://shop/a'', Str ''$12.99'', Time 3],
      [Str ''http://shop/a'', Str ''$12.99'', Time 6],
      [Str ''http://shop/a'', Str ''$12.99'', Time 15],
      [Str ''http://shop/a'', Str ''$12.99'', Time 18]]
 \<and> (\<exists>st3 fs3. save_if_data shop_env (init_bot\<lparr>data := [obs_a]\<rparr>) empty_disk = Inr (st3, fs3)
       \<and> holds_dataset fs3 default_filename [[Str ''http://shop/a'', Str ''$12.99'', Time 7]])"
proof -
  have q: "\<forall>j. foreground shop_env j = []" by (simp add: shop_env_def quiet_env_def)
  have r: "running shop_bot" by code_simp
  have w: "write_error empty_disk default_filename = None" by (simp add: empty_disk_def)
  have h: "holds_dataset empty_disk default_filename []"
    by (simp add: holds_dataset_def empty_disk_def)
  have c: "map row_of (cycle_rows shop_env (reads shop_bot) (sites shop_bot) (interval shop_bot) 2) =
     [[Str ''http://shop/a'', Str ''$12.99'', Time 3],
      [Str ''http://shop/a'', Str ''$12.99'', Time 6],
      [Str ''http://shop/a'', Str ''$12.99'', Time 15],
      [Str ''http://shop/a'', Str ''$12.99'', Time 18]]"
    by code_simp
  have b: "reads_back shop_env
      ([] @ map row_of (cycle_rows shop_env (reads shop_bot) (sites shop_bot) (interval shop_bot) 2))"
    by code_simp
  have d: "data (init_bot\<lparr>data := [obs_a]\<rparr>) \<noteq> []" by simp
  have o: "map row_of (data (init_bot\<lparr>data := [obs_a]\<rparr>)) =
      [[Str ''http://shop/a'', Str ''$12.99'', Time 7]]"
    by (simp add: row_of_def obs_a_def)
  from each_round_appended_once[where n = 2 and env = shop_env and st = shop_bot
      and fsys = empty_disk and old = "[]" and ?st2.0 = "init_bot\<lparr>data := [obs_a]\<rparr>"]
    q r w h b d
  show ?thesis unfolding c o by simp
qed


subsection \<open>Sleeping and stopping\<close>

lemma poll_frame: "slept (poll env st) = slept st" "interval (poll env st) = interval st"
  by (simp_all add: poll_def fold_act_frame)

lemma scrape_loop_frame:
  "slept (scrape_loop env ts st) = slept st \<and> interval (scrape_loop env ts st) = interval st"
proof (induction ts arbitrary: st)
  case Nil
  then show ?case by simp
next
  case (Cons t ts)
  obtain u selector where t: "t = (u, selector)" by (cases t)
  show ?case
    by (simp add: t Let_def Cons.IH poll_frame log_def split: sum.split)
qed

lemma scrape_all_sites_frame:
  "slept (scrape_all_sites env st) = slept st" "interval (scrape_all_sites env st) = interval st"
  by (simp_all add: scrape_all_sites_def scrape_loop_frame)

lemma save_if_data_frame:
  assumes "save_if_data env st fsys = Inr (st3, fs3)"
  shows "slept st3 = slept st" "interval st3 = interval st" "reads st3 = reads st"
  using assms
  by (auto simp: save_if_data_def save_data_def write_and_log_def log_def Let_def
      split: if_splits sum.splits)

lemma slices_are_interval_minutes: "10 * nat (iv * 6) = 60 * nat iv"
  by (cases "0 \<le> iv") (simp_all add: nat_mult_distrib)

text \<open>
  Claim C8, as the code has it. In \<open>run_bot\<close>, the sleep after a round is \<open>interval * 6\<close>
  slices of ten seconds, with one read of the flag before each slice: left alone, the
  cycle sleeps \<open>interval\<close> minutes in all and reads the flag once for each slice. If
  \<open>stop()\<close> is called when \<open>i\<close> slices have begun (during slice \<open>i\<close>, or before the first
  when \<open>i = 0\<close>), and \<open>start()\<close> is not called after it before the cycle has read the flag
  again at the slice and at the \<open>while\<close>, then the cycle sleeps no slice more: it has slept
  \<open>10 * i\<close> seconds in all when it leaves the sleep loop, finds the flag unset at the
  \<open>while\<close>, logs that the bot has stopped, and ends.
\<close>

theorem stop_during_sleep:
  assumes "running (poll env st)"
    and "save_if_data env (scrape_all_sites env (log StartingRound (poll env st))) fsys
           = Inr (st3, fs3)"
    and "running st3"
    and "i \<le> nat (interval st * 6)"
    and "\<forall>j<i. foreground env (reads st3 + j) = []"
  shows "(foreground env (reads st3 + i) = calls @ [Stop] \<and> foreground env (Suc (reads st3 + i)) = []
          \<longrightarrow> finished (run_bot (Suc (Suc fuel)) env st fsys)
            \<and> slept (final_bot (run_bot (Suc (Suc fuel)) env st fsys)) = slept st + 10 * i
            \<and> \<not> running (final_bot (run_bot (Suc (Suc fuel)) env st fsys))
            \<and> last (logs (final_bot (run_bot (Suc (Suc fuel)) env st fsys))) = BotStopped)
       \<and> (i = nat (interval st * 6)
          \<longrightarrow> out_of_fuel (run_bot (Suc 0) env st fsys)
            \<and> slept (final_bot (run_bot (Suc 0) env st fsys)) = slept st + 60 * nat (interval st)
            \<and> reads (final_bot (run_bot (Suc 0) env st fsys))
                = reads st3 + nat (interval st * 6))"
proof -
  define st4 where "st4 = log (SleepingFor (interval st3)) st3"
  define n where "n = nat (interval st * 6)"
  have iv: "interval st3 = interval st"
    using save_if_data_frame(2)[OF assms(2)] by (simp add: scrape_all_sites_frame log_def poll_frame)
  have sl: "slept st3 = slept st"
    using save_if_data_frame(1)[OF assms(2)] by (simp add: scrape_all_sites_frame log_def poll_frame)
  have f4: "running st4" "reads st4 = reads st3" "slept st4 = slept st"
    using assms(3) sl by (simp_all add: st4_def log_def)
  have step: "run_bot (Suc m) env st fsys = run_bot m env (sleep_loop env n st4) fs3" for m
    using run_bot_step[OF assms(1,2), of m] by (simp add: st4_def n_def iv)
  have le: "i \<le> n" using assms(4) by (simp add: n_def)
  have q: "\<forall>j<i. foreground env (reads st4 + j) = []" using assms(5) by (simp add: f4)
  show ?thesis
  proof (intro conjI impI)
    assume "i = nat (interval st * 6)"
    then have "i = n" by (simp add: n_def)
    with sleep_loop_quiet[OF f4(1), of n env] q
    have s: "sleep_loop env n st4 = st4\<lparr>reads := reads st4 + n, slept := slept st4 + 10 * n\<rparr>"
      by simp
    have r0: "run_bot (Suc 0) env st fsys = OutOfFuel (sleep_loop env n st4) fs3"
      unfolding step by simp
    show "out_of_fuel (run_bot (Suc 0) env st fsys)" unfolding r0 by simp
    have "slept (sleep_loop env n st4) = slept st + 10 * n" by (simp add: s f4)
    then show "slept (final_bot (run_bot (Suc 0) env st fsys)) = slept st + 60 * nat (interval st)"
      unfolding r0 by (simp add: n_def slices_are_interval_minutes)
    have "reads (sleep_loop env n st4) = reads st3 + n" by (simp add: s f4)
    then show "reads (final_bot (run_bot (Suc 0) env st fsys)) = reads st3 + nat (interval st * 6)"
      unfolding r0 by (simp add: n_def)
  next
    assume a: "foreground env (reads st3 + i) = calls @ [Stop]
        \<and> foreground env (Suc (reads st3 + i)) = []"
    then have a1: "foreground env (reads st4 + i) = calls @ [Stop]"
      and a2: "foreground env (Suc (reads st4 + i)) = []"
      by (simp_all add: f4)
    note s = stop_in_sleep[OF f4(1) le q a1 a2, of fuel fs3]
    from s show "finished (run_bot (Suc (Suc fuel)) env st fsys)"
      unfolding step by blast
    from s show "slept (final_bot (run_bot (Suc (Suc fuel)) env st fsys)) = slept st + 10 * i"
      unfolding step by (simp add: f4)
    from s show "\<not> running (final_bot (run_bot (Suc (Suc fuel)) env st fsys))"
      unfolding step by blast
    from s show "last (logs (final_bot (run_bot (Suc (Suc fuel)) env st fsys))) = BotStopped"
      unfolding step by blast
  qed
qed

theorem stop_during_sleep_witness:
  "running (poll (stopping_env 8 shop_web shop_parser) shop_bot)
 \<and> nat (interval shop_bot * 6) = 6
 \<and> foreground (stopping_env 8 shop_web shop_parser) 8 = [] @ [Stop]
 \<and> finished (run_bot (Suc (Suc 0)) (stopping_env 8 shop_web shop_parser) shop_bot empty_disk)
 \<and> slept (final_bot
      (run_bot (Suc (Suc 0)) (stopping_env 8 shop_web shop_parser) shop_bot empty_disk)) = 20
 \<and> last (logs (final_bot
      (run_bot (Suc (Suc 0)) (stopping_env 8 shop_web shop_parser) shop_bot empty_disk))) = BotStopped
 \<and> out_of_fuel (run_bot (Suc 0) shop_env shop_bot empty_disk)
 \<and> slept (final_bot (run_bot (Suc 0) shop_env shop_bot empty_disk)) = 60
 \<and> reads (final_bot (run_bot (Suc 0) shop_env shop_bot empty_disk)) = 12"
proof -
  let ?env = "stopping_env 8 shop_web shop_parser"
  let ?st2 = "scrape_all_sites ?env (log StartingRound (poll ?env shop_bot))"
  let ?st3 = "log (DataSaved default_filename) ?st2"
  let ?qt2 = "scrape_all_sites shop_env (log StartingRound (poll shop_env shop_bot))"
  let ?qt3 = "log (DataSaved default_filename) ?qt2"
  have w: "write_error empty_disk default_filename = None" by (simp add: empty_disk_def)
  have h: "holds_dataset empty_disk default_filename []"
    by (simp add: holds_dataset_def empty_disk_def)
  have k: "slept shop_bot = 0" "interval shop_bot = 1" by code_simp+
  have n: "nat (interval shop_bot * 6) = 6" by code_simp
  \<comment> \<open>the cycle that is stopped during its second slice\<close>
  have r: "running (poll ?env shop_bot)" by code_simp
  have d: "data ?st2 \<noteq> []" by code_simp
  have sv: "save_if_data ?env ?st2 empty_disk =
      Inr (?st3, with_table empty_disk default_filename
                   (map (map (read_cell ?env)) [] @ map row_of (data ?st2)))"
    using save_data_appends[OF d w h, of ?env] d by (simp add: save_if_data_def)
  have r3: "running ?st3" by code_simp
  have k3: "reads ?st3 = 6" by code_simp
  have le: "2 \<le> nat (interval shop_bot * 6)" by (simp add: n)
  have q: "\<forall>j<2. foreground ?env (reads ?st3 + j) = []"
    unfolding k3 by (simp add: stopping_env_def quiet_env_def)
  have s: "foreground ?env (reads ?st3 + 2) = [] @ [Stop]"
    "foreground ?env (Suc (reads ?st3 + 2)) = []"
    unfolding k3 by (simp_all add: stopping_env_def quiet_env_def)
  note a = stop_during_sleep[OF r sv r3 le q, of "[]" 0]
  \<comment> \<open>the cycle that is left alone\<close>
  have r': "running (poll shop_env shop_bot)" by code_simp
  have d': "data ?qt2 \<noteq> []" by code_simp
  have sv': "save_if_data shop_env ?qt2 empty_disk =
      Inr (?qt3, with_table empty_disk default_filename
                   (map (map (read_cell shop_env)) [] @ map row_of (data ?qt2)))"
    using save_data_appends[OF d' w h, of shop_env] d' by (simp add: save_if_data_def)
  have r3': "running ?qt3" by code_simp
  have k3': "reads ?qt3 = 6" by code_simp
  have le': "6 \<le> nat (interval shop_bot * 6)" by (simp add: n)
  have q': "\<forall>j<6. foreground shop_env (reads ?qt3 + j) = []"
    by (simp add: shop_env_def quiet_env_def)
  note b = stop_during_sleep[OF r' sv' r3' le' q']
  have f8: "foreground ?env 8 = [] @ [Stop]" by (simp add: stopping_env_def quiet_env_def)
  from a b r n s k k3 k3' f8 show ?thesis by (simp del: run_bot.simps)
qed

text \<open>
  As stated, C8 has every \<open>stop()\<close> during the sleep end the cycle within a slice. When
  \<open>start()\<close> follows the \<open>stop()\<close> within the same slice, the flag is set again when the
  cycle next reads it: the cycle sleeps the whole interval, runs the next round and goes
  on, and \<open>start()\<close> has created a second thread beside it.
\<close>

theorem stop_then_start_counterexample:
  "foreground (restarting_env 8 shop_web shop_parser) 8 = [Stop, Start]
 \<and> out_of_fuel (run_bot 2 (restarting_env 8 shop_web shop_parser) shop_bot empty_disk)
 \<and> slept (final_bot
      (run_bot 2 (restarting_env 8 shop_web shop_parser) shop_bot empty_disk)) = 120
 \<and> running (final_bot
      (run_bot 2 (restarting_env 8 shop_web shop_parser) shop_bot empty_disk))
 \<and> threads (final_bot
      (run_bot 2 (restarting_env 8 shop_web shop_parser) shop_bot empty_disk)) = 2
 \<and> count_list (logs (final_bot
      (run_bot 2 (restarting_env 8 shop_web shop_parser) shop_bot empty_disk))) StoppingBot = 1
 \<and> count_list (logs (final_bot
      (run_bot 2 (restarting_env 8 shop_web shop_parser) shop_bot empty_disk))) StartingRound = 2
 \<and> count_list (logs (final_bot
      (run_bot 2 (restarting_env 8 shop_web shop_parser) shop_bot empty_disk))) BotStopped = 0"
  by code_simp

end
